theory Spec2Isabelle
  imports Main "HOL-Library.Extended_Nat"
begin

section \<open>JavaScript values shared by the packages\<close>

text \<open>
  A JavaScript \<open>Map\<close> (and a plain object with string keys) keeps its entries in
  insertion order: \<open>set\<close> on a key that is present replaces the value where it
  stands, \<open>set\<close> on a new key appends, \<open>keys().next().value\<close> is the first key.
  The model is an association list in that order.
\<close>

type_synonym ('k, 'v) jsmap = "('k \<times> 'v) list"

fun jsmap_get :: "'k \<Rightarrow> ('k, 'v) jsmap \<Rightarrow> 'v option" where
  "jsmap_get k [] = None"
| "jsmap_get k (p # ps) = (if fst p = k then Some (snd p) else jsmap_get k ps)"

fun jsmap_has :: "'k \<Rightarrow> ('k, 'v) jsmap \<Rightarrow> bool" where
  "jsmap_has k [] = False"
| "jsmap_has k (p # ps) = (fst p = k \<or> jsmap_has k ps)"

fun jsmap_set :: "'k \<Rightarrow> 'v \<Rightarrow> ('k, 'v) jsmap \<Rightarrow> ('k, 'v) jsmap" where
  "jsmap_set k v [] = [(k, v)]"
| "jsmap_set k v (p # ps) = (if fst p = k then (k, v) # ps else p # jsmap_set k v ps)"

fun jsmap_delete :: "'k \<Rightarrow> ('k, 'v) jsmap \<Rightarrow> ('k, 'v) jsmap" where
  "jsmap_delete k [] = []"
| "jsmap_delete k (p # ps) = (if fst p = k then ps else p # jsmap_delete k ps)"

definition jsmap_size :: "('k, 'v) jsmap \<Rightarrow> nat" where
  "jsmap_size m = length m"

definition jsmap_firstKey :: "('k, 'v) jsmap \<Rightarrow> 'k option" where
  \<comment> \<open>\<open>m.keys().next().value\<close>; \<open>undefined\<close> on an empty map\<close>
  "jsmap_firstKey m = (case m of [] \<Rightarrow> None | p # _ \<Rightarrow> Some (fst p))"

fun is_prefix :: "'a list \<Rightarrow> 'a list \<Rightarrow> bool" where
  "is_prefix [] ys = True"
| "is_prefix (x # xs) [] = False"
| "is_prefix (x # xs) (y # ys) = (x = y \<and> is_prefix xs ys)"

fun str_includes :: "string \<Rightarrow> string \<Rightarrow> bool" where
  \<comment> \<open>\<open>s.indexOf(sub) !== -1\<close>\<close>
  "str_includes [] sub = (sub = [])"
| "str_includes (c # cs) sub = (is_prefix sub (c # cs) \<or> str_includes cs sub)"

definition replace_colon :: "string \<Rightarrow> string" where
  \<comment> \<open>\<open>s.replace(':', '')\<close>: the first colon only\<close>
  "replace_colon s = remove1 (CHR '':'') s"

datatype error =
    TypeError string
  | Error string
  | AssertionError
  | Rejected string

section \<open>agent-base: the connection broker\<close>

text \<open>
  The fields of \<open>AgentConnectOpts\<close> that the agents read. \<open>secureEndpoint\<close> is
  declared boolean, but \<open>isSecureEndpoint\<close> tests \<open>typeof ... === 'boolean'\<close>, so
  it may be absent; \<open>protocol\<close> is an optional string.
\<close>

record AgentConnectOpts =
  opt_host :: "string option"
  opt_port :: nat
  opt_protocol :: "string option"
  opt_secureEndpoint :: "bool option"
  opt_servername :: "string option"

text \<open>
  A socket is an object; the model names each one by a number, and \<open>nextSocket\<close> is the
  name that the next \<open>new net.Socket\<close> of the agent gets, so that \<open>indexOf\<close> finds a
  placeholder by identity as the array search of the source does.
\<close>

type_synonym socket = nat

record Agent =
  maxSockets :: enat
  maxTotalSockets :: enat
  sockets :: "string \<rightharpoonup> socket list"
  totalSocketCount :: int
  nextSocket :: socket
  currentSocket :: "socket option"
  cachedSecureEndpoint :: "bool option"
  cachedEndpointKey :: "string option"

definition or_empty :: "string option \<Rightarrow> string" where
  \<comment> \<open>\<open>options.protocol || ''\<close>\<close>
  "or_empty p = (case p of None \<Rightarrow> [] | Some s \<Rightarrow> s)"

definition bool_or_empty :: "bool option \<Rightarrow> string" where
  \<comment> \<open>\<open>options.secureEndpoint || ''\<close> inside a template string\<close>
  "bool_or_empty b = (case b of Some True \<Rightarrow> ''true'' | _ \<Rightarrow> [])"

definition endpointCacheKey :: "AgentConnectOpts option \<Rightarrow> string" where
  "endpointCacheKey options =
     (case options of
        None \<Rightarrow> ''no-options''
      | Some opts \<Rightarrow> or_empty (opt_protocol opts) @ '':'' @ bool_or_empty (opt_secureEndpoint opts))"

definition explicitEndpoint :: "AgentConnectOpts option \<Rightarrow> bool option" where
  \<comment> \<open>the two early returns of \<open>isSecureEndpoint\<close>: the \<open>secureEndpoint\<close> field, then
      the \<open>protocol\<close> field\<close>
  "explicitEndpoint options =
     (case options of
        None \<Rightarrow> None
      | Some opts \<Rightarrow>
          (case opt_secureEndpoint opts of
             Some b \<Rightarrow> Some b
           | None \<Rightarrow>
               (case opt_protocol opts of
                  Some p \<Rightarrow> Some (p = ''https:'')
                | None \<Rightarrow> None)))"

definition stackSaysHttps :: "string option \<Rightarrow> bool" where
  \<comment> \<open>\<open>new Error().stack\<close>, when it is a string, searched for the https module\<close>
  "stackSaysHttps stack =
     (case stack of
        None \<Rightarrow> False
      | Some s \<Rightarrow> str_includes s ''(https.js:'' \<or> str_includes s ''node:https:'')"

definition isSecureEndpoint ::
  "string option \<Rightarrow> AgentConnectOpts option \<Rightarrow> 'a Agent_scheme \<Rightarrow> bool \<times> 'a Agent_scheme" where
  "isSecureEndpoint stack options a =
     (case explicitEndpoint options of
        Some b \<Rightarrow> (b, a)
      | None \<Rightarrow>
          (let cacheKey = endpointCacheKey options in
           case (if cachedEndpointKey a = Some cacheKey then cachedSecureEndpoint a else None) of
             Some cached \<Rightarrow> (cached, a)
           | None \<Rightarrow>
               (let result = stackSaysHttps stack in
                (result, a\<lparr>cachedEndpointKey := Some cacheKey,
                            cachedSecureEndpoint := Some result\<rparr>))))"

definition incrementSockets :: "string \<Rightarrow> 'a Agent_scheme \<Rightarrow> socket option \<times> 'a Agent_scheme" where
  "incrementSockets name a =
     (if maxSockets a = \<infinity> \<and> maxTotalSockets a = \<infinity> then (None, a)
      else
        (let arr = (case sockets a name of None \<Rightarrow> [] | Some xs \<Rightarrow> xs);
             fakeSocket = nextSocket a
         in (Some fakeSocket,
             a\<lparr>sockets := (sockets a)(name \<mapsto> arr @ [fakeSocket]),
                totalSocketCount := totalSocketCount a + 1,
                nextSocket := Suc (nextSocket a)\<rparr>)))"

fun indexOf :: "'a list \<Rightarrow> 'a \<Rightarrow> nat option" where
  "indexOf [] x = None"
| "indexOf (y # ys) x = (if y = x then Some 0 else map_option Suc (indexOf ys x))"

definition splice1 :: "'a list \<Rightarrow> nat \<Rightarrow> 'a list" where
  \<comment> \<open>\<open>xs.splice(i, 1)\<close>\<close>
  "splice1 xs i = take i xs @ drop (Suc i) xs"

definition decrementSockets ::
  "string \<Rightarrow> socket option \<Rightarrow> 'a Agent_scheme \<Rightarrow> 'a Agent_scheme" where
  "decrementSockets name socket a =
     (case sockets a name of
        None \<Rightarrow> a
      | Some arr \<Rightarrow>
          (case socket of
             None \<Rightarrow> a
           | Some s \<Rightarrow>
               (case indexOf arr s of
                  None \<Rightarrow> a
                | Some index \<Rightarrow>
                    (let arr' = splice1 arr index in
                     a\<lparr>sockets := (if arr' = [] then (sockets a)(name := None)
                                    else (sockets a)(name \<mapsto> arr')),
                        totalSocketCount := totalSocketCount a - 1\<rparr>))))"

text \<open>
  What the abstract \<open>connect\<close> of a subclass can do when \<open>createSocket\<close> calls it:
  throw, return a value at once, or return a promise that settles later.
\<close>

datatype connected =
    Duplex socket
  | OtherAgent bool   \<comment> \<open>an \<open>http.Agent\<close>; the flag says whether its \<open>addRequest\<close> throws\<close>
  | Falsy             \<comment> \<open>\<open>undefined\<close> or \<open>null\<close>\<close>

datatype connectResult =
    Throws error
  | Returns connected
  | Thenable

datatype settled =
    Fulfilled connected
  | RejectedWith error

datatype broker_event =
    EvIncrement string "socket option"
  | EvConnect
  | EvDecrement string "socket option"
  | EvAddRequest
  | EvCallback error
  | EvSuperCreateSocket

datatype pending =
    Done
  | Awaiting string "socket option"

text \<open>
  \<open>events\<close> is not a field of the class: it records, in order, the calls that
  \<open>createSocket\<close> and its promise handlers make.
\<close>

record Broker = Agent +
  events :: "broker_event list"

definition getName ::
  "(AgentConnectOpts \<Rightarrow> string) \<Rightarrow> (AgentConnectOpts \<Rightarrow> string) \<Rightarrow> string option \<Rightarrow>
   AgentConnectOpts \<Rightarrow> Broker \<Rightarrow> string \<times> Broker" where
  \<comment> \<open>the two \<open>getName\<close> of Node's \<open>http.Agent\<close> and \<open>https.Agent\<close> are parameters\<close>
  "getName httpName httpsName stack options a =
     (let (secureEndpoint, a1) = isSecureEndpoint stack (Some options) a
      in (if secureEndpoint then httpsName options else httpName options, a1))"

definition afterConnect :: "string \<Rightarrow> socket option \<Rightarrow> connected \<Rightarrow> Broker \<Rightarrow> Broker" where
  \<comment> \<open>the body shared by the synchronous fast path and the promise's success handler\<close>
  "afterConnect name fakeSocket c a =
     (let a1 = (decrementSockets name fakeSocket a)
                 \<lparr>events := events a @ [EvDecrement name fakeSocket]\<rparr>
      in case c of
           OtherAgent throws \<Rightarrow>
             a1\<lparr>events := events a1 @
                   (if throws then [EvAddRequest, EvCallback (Error ''addRequest'')]
                    else [EvAddRequest])\<rparr>
         | Duplex s \<Rightarrow>
             a1\<lparr>currentSocket := Some s, events := events a1 @ [EvSuperCreateSocket]\<rparr>
         | Falsy \<Rightarrow>
             a1\<lparr>currentSocket := None, events := events a1 @ [EvSuperCreateSocket]\<rparr>)"

definition createSocket ::
  "(AgentConnectOpts \<Rightarrow> string) \<Rightarrow> (AgentConnectOpts \<Rightarrow> string) \<Rightarrow> string option \<Rightarrow>
   AgentConnectOpts \<Rightarrow> connectResult \<Rightarrow> Broker \<Rightarrow> (error + pending) \<times> Broker" where
  "createSocket httpName httpsName stack options connectResult a =
     (let (secureEndpoint, a1) = isSecureEndpoint stack (Some options) a;
          connectOpts = options\<lparr>opt_secureEndpoint := Some secureEndpoint\<rparr>;
          (name, a2) = getName httpName httpsName stack connectOpts a1;
          (fakeSocket, a3) = incrementSockets name a2;
          a4 = a3\<lparr>events := events a3 @ [EvIncrement name fakeSocket, EvConnect]\<rparr>
      in case connectResult of
           Throws err \<Rightarrow> (Inl err, a4)
         | Returns Falsy \<Rightarrow> (Inr (Awaiting name fakeSocket), a4)
         | Returns c \<Rightarrow> (Inr Done, afterConnect name fakeSocket c a4)
         | Thenable \<Rightarrow> (Inr (Awaiting name fakeSocket), a4))"

definition createSocket_settled ::
  "string \<Rightarrow> socket option \<Rightarrow> settled \<Rightarrow> Broker \<Rightarrow> Broker" where
  \<comment> \<open>the two handlers given to \<open>Promise.resolve(connectResult).then\<close>\<close>
  "createSocket_settled name fakeSocket outcome a =
     (case outcome of
        Fulfilled c \<Rightarrow> afterConnect name fakeSocket c a
      | RejectedWith err \<Rightarrow>
          (decrementSockets name fakeSocket a)
            \<lparr>events := events a @ [EvDecrement name fakeSocket, EvCallback err]\<rparr>)"

fun isSecureEndpoint_seq ::
  "(string option \<times> AgentConnectOpts option) list \<Rightarrow> 'a Agent_scheme \<Rightarrow> 'a Agent_scheme" where
  \<comment> \<open>a run of calls on one agent, each with the stack it is called from and its options\<close>
  "isSecureEndpoint_seq [] a = a"
| "isSecureEndpoint_seq (c # cs) a =
     isSecureEndpoint_seq cs (snd (isSecureEndpoint (fst c) (snd c) a))"

fun isDecrement :: "broker_event \<Rightarrow> bool" where
  "isDecrement (EvDecrement name s) = True"
| "isDecrement _ = False"

fun isIncrement :: "broker_event \<Rightarrow> bool" where
  "isIncrement (EvIncrement name s) = True"
| "isIncrement _ = False"

definition brokerInit :: "enat \<Rightarrow> enat \<Rightarrow> Broker" where
  \<comment> \<open>a new agent: no socket, empty internal state\<close>
  "brokerInit ms mts =
     \<lparr>maxSockets = ms, maxTotalSockets = mts, sockets = Map.empty, totalSocketCount = 0,
      nextSocket = 0, currentSocket = None, cachedSecureEndpoint = None,
      cachedEndpointKey = None, events = []\<rparr>"

section \<open>Strings and values of the Node library\<close>

definition digit_char :: "nat \<Rightarrow> char" where
  "digit_char d = ''0123456789'' ! d"

fun string_of_nat :: "nat \<Rightarrow> string" where
  \<comment> \<open>a number inside a template string: its decimal digits\<close>
  "string_of_nat n =
     (if n < 10 then [digit_char n]
      else string_of_nat (n div 10) @ [digit_char (n mod 10)])"

declare string_of_nat.simps [simp del]

definition digit_of :: "char \<Rightarrow> nat option" where
  "digit_of c = indexOf ''0123456789'' c"

fun parse_digits :: "nat option \<Rightarrow> string \<Rightarrow> nat option" where
  "parse_digits acc [] = acc"
| "parse_digits acc (c # cs) =
     (case digit_of c of
        None \<Rightarrow> acc
      | Some d \<Rightarrow> parse_digits (Some ((case acc of None \<Rightarrow> 0 | Some a \<Rightarrow> a) * 10 + d)) cs)"

definition parseInt10 :: "string \<Rightarrow> nat option" where
  \<comment> \<open>\<open>parseInt(s, 10)\<close> on the \<open>port\<close> of a URL, which is empty or all digits:
      the leading digits, \<open>NaN\<close> (here \<open>None\<close>) when there is none\<close>
  "parseInt10 s = parse_digits None s"

definition ascii_lower :: "char \<Rightarrow> char" where
  "ascii_lower c =
     (case map_of (zip ''ABCDEFGHIJKLMNOPQRSTUVWXYZ'' ''abcdefghijklmnopqrstuvwxyz'') c of
        Some l \<Rightarrow> l
      | None \<Rightarrow> c)"

definition toLowerCase :: "string \<Rightarrow> string" where
  \<comment> \<open>on header names, which are ASCII tokens\<close>
  "toLowerCase s = map ascii_lower s"

definition CRLF :: string where
  "CRLF = [CHR 0x0D, CHR 0x0A]"

text \<open>
  \<open>OutgoingHttpHeaders\<close>: an object from header names to values, in insertion order.
  A value is a string; the empty string is the falsy value. (Names are header tokens, not
  array indices, which an object would list first.)
\<close>

type_synonym headers = "(string, string) jsmap"

definition truthy :: "string option \<Rightarrow> bool" where
  \<comment> \<open>\<open>undefined\<close>, \<open>null\<close> and \<open>''\<close> are falsy\<close>
  "truthy v = (case v of None \<Rightarrow> False | Some s \<Rightarrow> s \<noteq> [])"

datatype headerProvider =
    StaticHeaders headers
  | HeaderFunction headers   \<comment> \<open>a callback; the argument is what it returns in this call\<close>

definition providedHeaders :: "headerProvider \<Rightarrow> headers" where
  \<comment> \<open>\<open>typeof h === 'function' ? h() : { ...h }\<close>\<close>
  "providedHeaders p = (case p of StaticHeaders h \<Rightarrow> h | HeaderFunction h \<Rightarrow> h)"

record URL =
  url_protocol :: string   \<comment> \<open>with its colon, as \<open>'https:'\<close>\<close>
  url_hostname :: string
  url_port :: string
  url_username :: string
  url_password :: string
  url_href :: string

text \<open>
  Functions of Node and of the WHATWG URL class that the agents call; their code is not
  part of the repository, so they are parameters.
\<close>

record Lib =
  isIP :: "string \<Rightarrow> bool"
  isIPv6 :: "string \<Rightarrow> bool"
  base64 :: "string \<Rightarrow> string"
  decodeURIComponent :: "string \<Rightarrow> string"
  newURL :: "string \<Rightarrow> string \<Rightarrow> URL"       \<comment> \<open>\<open>new URL(path, base)\<close>\<close>
  setPort :: "string \<Rightarrow> URL \<Rightarrow> URL"         \<comment> \<open>\<open>url.port = p\<close>\<close>
  parseURL :: "string \<Rightarrow> URL option"        \<comment> \<open>\<open>new URL(s)\<close>, which throws on a bad URL\<close>

definition basicAuth :: "Lib \<Rightarrow> URL \<Rightarrow> string" where
  "basicAuth lib proxy =
     ''Basic '' @ base64 lib (decodeURIComponent lib (url_username proxy) @ '':'' @
                              decodeURIComponent lib (url_password proxy))"

definition evictThenSet :: "nat \<Rightarrow> 'k \<Rightarrow> 'v \<Rightarrow> ('k, 'v) jsmap \<Rightarrow> ('k, 'v) jsmap" where
  \<comment> \<open>\<open>if (m.size >= max) { m.delete(m.keys().next().value) } m.set(k, v)\<close>\<close>
  "evictThenSet maxSize k v m =
     jsmap_set k v
       (if jsmap_size m \<ge> maxSize
        then (case jsmap_firstKey m of None \<Rightarrow> m | Some firstKey \<Rightarrow> jsmap_delete firstKey m)
        else m)"

section \<open>https-proxy-agent: the CONNECT tunnel\<close>

type_synonym session = string



record HttpsProxyAgent =
  hpa_proxy :: URL
  hpa_proxyHeaders :: headerProvider
  hpa_sessionCacheKey :: string
  hpa_keepAlive :: bool

definition bracketIPv6 :: "Lib \<Rightarrow> string \<Rightarrow> string" where
  "bracketIPv6 lib host = (if isIPv6 lib host then ''['' @ host @ '']'' else host)"

definition headerCacheKey :: "HttpsProxyAgent \<Rightarrow> string \<Rightarrow> nat \<Rightarrow> string" where
  "headerCacheKey ag host port =
     hpa_sessionCacheKey ag @ '':'' @ host @ '':'' @ string_of_nat port"

definition connectHeaders ::
  "Lib \<Rightarrow> HttpsProxyAgent \<Rightarrow> string \<Rightarrow> nat \<Rightarrow> (string, headers) jsmap \<Rightarrow>
   headers \<times> (string, headers) jsmap" where
  "connectHeaders lib ag host port commonHeadersCache =
     (let key = headerCacheKey ag host port;
          hit = (case hpa_proxyHeaders ag of
                   StaticHeaders _ \<Rightarrow> jsmap_get key commonHeadersCache
                 | HeaderFunction _ \<Rightarrow> None)
      in case hit of
           Some cached \<Rightarrow> (cached, commonHeadersCache)
         | None \<Rightarrow>
             (let h0 = providedHeaders (hpa_proxyHeaders ag);
                  proxy = hpa_proxy ag;
                  h1 = (if url_username proxy \<noteq> [] \<or> url_password proxy \<noteq> []
                        then jsmap_set ''Proxy-Authorization'' (basicAuth lib proxy) h0
                        else h0);
                  h2 = jsmap_set ''Host'' (bracketIPv6 lib host @ '':'' @ string_of_nat port) h1;
                  h3 = (if \<not> truthy (jsmap_get ''Proxy-Connection'' h2)
                        then jsmap_set ''Proxy-Connection''
                               (if hpa_keepAlive ag then ''Keep-Alive'' else ''close'') h2
                        else h2)
              in (h3, case hpa_proxyHeaders ag of
                        StaticHeaders _ \<Rightarrow> jsmap_set key h3 commonHeadersCache
                      | HeaderFunction _ \<Rightarrow> commonHeadersCache)))"

definition connectPayload :: "Lib \<Rightarrow> string \<Rightarrow> nat \<Rightarrow> headers \<Rightarrow> string" where
  \<comment> \<open>the request line, the header lines and the blank line that ends them\<close>
  "connectPayload lib host port hs =
     ''CONNECT '' @ bracketIPv6 lib host @ '':'' @ string_of_nat port @ '' HTTP/1.1'' @ CRLF @
     concat (map (\<lambda>p. fst p @ '': '' @ snd p @ CRLF) hs) @ CRLF"

text \<open>
  The sockets and what happens to them, in order. A socket made with
  \<open>writable: false\<close> is in \<open>readOnly\<close>; \<open>write\<close> puts bytes on the wire of the socket
  it is called on, and only when that socket is writable and not destroyed.
\<close>

datatype net_event =
    Opened socket bool                 \<comment> \<open>\<open>net.connect\<close>, or \<open>tls.connect\<close> when the flag is set\<close>
  | Wrote socket string
  | Responded nat                      \<comment> \<open>the proxy's status line was parsed\<close>
  | Destroyed socket
  | TlsUpgraded socket socket "string option" "session option"
  | Pushed socket "string option"      \<comment> \<open>\<open>push(chunk)\<close>; \<open>push(null)\<close> is \<open>None\<close>\<close>

record Net =
  trace :: "net_event list"
  readOnly :: "socket set"
  destroyedSockets :: "socket set"
  freshSocket :: socket

definition newSocket :: "bool \<Rightarrow> 'a Net_scheme \<Rightarrow> socket \<times> 'a Net_scheme" where
  \<comment> \<open>\<open>new net.Socket({ writable })\<close>\<close>
  "newSocket w n =
     (freshSocket n,
      n\<lparr>readOnly := (if w then readOnly n else insert (freshSocket n) (readOnly n)),
         freshSocket := Suc (freshSocket n)\<rparr>)"

definition socket_write :: "socket \<Rightarrow> string \<Rightarrow> 'a Net_scheme \<Rightarrow> 'a Net_scheme" where
  "socket_write s bytes n =
     (if s \<in> readOnly n \<or> s \<in> destroyedSockets n then n
      else n\<lparr>trace := trace n @ [Wrote s bytes]\<rparr>)"

definition socket_destroy :: "socket \<Rightarrow> 'a Net_scheme \<Rightarrow> 'a Net_scheme" where
  "socket_destroy s n =
     n\<lparr>trace := trace n @ [Destroyed s], destroyedSockets := insert s (destroyedSockets n)\<rparr>"

record HttpsProxy = Net +
  sessionCache :: "(string, session) jsmap"
  commonHeadersCache :: "(string, headers) jsmap"
  connectSession :: "session option"      \<comment> \<open>\<open>this.connectOpts.session\<close>\<close>

datatype onSocket =
    Resume
  | Replay string

record connectReturn =
  ret_socket :: socket
  ret_onSocket :: onSocket       \<comment> \<open>the listener left on the request's \<open>'socket'\<close> event\<close>
  ret_proxySocket :: socket

definition setServernameFromNonIpHost :: "Lib \<Rightarrow> AgentConnectOpts \<Rightarrow> string option" where
  \<comment> \<open>the \<open>servername\<close> of the options it returns\<close>
  "setServernameFromNonIpHost lib opts =
     (case opt_servername opts of
        Some sn \<Rightarrow> Some sn
      | None \<Rightarrow>
          (case opt_host opts of
             Some h \<Rightarrow> if h \<noteq> [] \<and> \<not> isIP lib h then Some h else None
           | None \<Rightarrow> None))"

definition https_connect ::
  "Lib \<Rightarrow> HttpsProxyAgent \<Rightarrow> AgentConnectOpts \<Rightarrow> (error + nat \<times> string) \<Rightarrow> HttpsProxy \<Rightarrow>
   (error + connectReturn) \<times> HttpsProxy" where
  \<comment> \<open>\<open>response\<close> is what \<open>parseProxyResponse\<close> settles with: an error, or the status
      code and the bytes read so far\<close>
  "https_connect lib ag opts response st =
     (case opt_host opts of
        None \<Rightarrow> (Inl (TypeError ''No host provided''), st)
      | Some host \<Rightarrow>
          if host = [] then (Inl (TypeError ''No host provided''), st)
          else
            (let st1 = (case jsmap_get (hpa_sessionCacheKey ag) (sessionCache st) of
                          Some cachedSession \<Rightarrow> st\<lparr>connectSession := Some cachedSession\<rparr>
                        | None \<Rightarrow> st);
                 (socket, st2) = newSocket True st1;
                 st3 = st2\<lparr>trace := trace st2 @
                             [Opened socket (url_protocol (hpa_proxy ag) = ''https:'')]\<rparr>;
                 (hs, cache') = connectHeaders lib ag host (opt_port opts) (commonHeadersCache st3);
                 st4 = st3\<lparr>commonHeadersCache := cache'\<rparr>;
                 st5 = socket_write socket (connectPayload lib host (opt_port opts) hs) st4
             in case response of
                  Inl err \<Rightarrow> (Inl err, st5)
                | Inr (statusCode, buffered) \<Rightarrow>
                    (let st6 = st5\<lparr>trace := trace st5 @ [Responded statusCode]\<rparr> in
                     if statusCode = 200 then
                       (if opt_secureEndpoint opts = Some True then
                          (let targetSessionKey =
                                 ''target:'' @ host @ '':'' @ string_of_nat (opt_port opts);
                               (tlsSocket, st7) = newSocket True st6
                           in (Inr \<lparr>ret_socket = tlsSocket, ret_onSocket = Resume,
                                    ret_proxySocket = socket\<rparr>,
                               st7\<lparr>trace := trace st7 @
                                     [TlsUpgraded socket tlsSocket
                                        (setServernameFromNonIpHost lib opts)
                                        (jsmap_get targetSessionKey (sessionCache st7))]\<rparr>))
                        else
                          (Inr \<lparr>ret_socket = socket, ret_onSocket = Resume,
                                ret_proxySocket = socket\<rparr>, st6))
                     else
                       (let st7 = socket_destroy socket st6;
                            (fakeSocket, st8) = newSocket False st7
                        in (Inr \<lparr>ret_socket = fakeSocket, ret_onSocket = Replay buffered,
                                 ret_proxySocket = socket\<rparr>, st8)))))"

definition socketEvent ::
  "onSocket \<Rightarrow> socket \<Rightarrow> nat \<Rightarrow> 'a Net_scheme \<Rightarrow> error + 'a Net_scheme" where
  \<comment> \<open>the request's \<open>'socket'\<close> event, fired with the socket the request was given;
      \<open>listeners\<close> is its \<open>listenerCount('data')\<close>\<close>
  "socketEvent h s listeners n =
     (case h of
        Resume \<Rightarrow> Inr n
      | Replay buffered \<Rightarrow>
          if listeners > 0
          then Inr (n\<lparr>trace := trace n @ [Pushed s (Some buffered), Pushed s None]\<rparr>)
          else Inl AssertionError)"

definition httpsProxyInit :: HttpsProxy where
  "httpsProxyInit =
     \<lparr>trace = [], readOnly = {}, destroyedSockets = {}, freshSocket = 0,
      sessionCache = [], commonHeadersCache = [], connectSession = None\<rparr>"

section \<open>http-proxy-agent: the forward-HTTP tunnel\<close>

definition URL_CACHE_SIZE :: nat where
  "URL_CACHE_SIZE = 100"

record HttpProxyAgent =
  hp_proxy :: URL
  hp_proxyHeaders :: headerProvider
  hp_cachedAuthHeader :: "string option"
  hp_cachedProxyConnection :: string

definition HttpProxyAgent_new :: "Lib \<Rightarrow> URL \<Rightarrow> headerProvider \<Rightarrow> bool \<Rightarrow> HttpProxyAgent" where
  \<comment> \<open>the constructor, with the agent's \<open>keepAlive\<close> option\<close>
  "HttpProxyAgent_new lib proxy hdrs keepAlive =
     \<lparr>hp_proxy = proxy, hp_proxyHeaders = hdrs,
      hp_cachedAuthHeader =
        (if url_username proxy \<noteq> [] \<or> url_password proxy \<noteq> []
         then Some (basicAuth lib proxy) else None),
      hp_cachedProxyConnection = (if keepAlive then ''Keep-Alive'' else ''close'')\<rparr>"

text \<open>
  The request: its path, and its headers as Node's \<open>http.ClientRequest\<close> keeps them, under
  the lower-cased name, each with the name as it was written and the value.
\<close>

record ClientRequest =
  req_path :: string
  req_headers :: "(string, string \<times> string) jsmap"

definition getHeader :: "string \<Rightarrow> ClientRequest \<Rightarrow> string option" where
  "getHeader name req = map_option snd (jsmap_get (toLowerCase name) (req_headers req))"

definition setHeader :: "string \<Rightarrow> string \<Rightarrow> ClientRequest \<Rightarrow> ClientRequest" where
  "setHeader name v req =
     req\<lparr>req_headers := jsmap_set (toLowerCase name) (name, v) (req_headers req)\<rparr>"

definition proxyRequestHeaders :: "HttpProxyAgent \<Rightarrow> headers" where
  \<comment> \<open>the \<open>headers\<close> object of \<open>setRequestProps\<close> when its loop starts\<close>
  "proxyRequestHeaders ag =
     (let h0 = providedHeaders (hp_proxyHeaders ag);
          h1 = (if truthy (hp_cachedAuthHeader ag)
                then jsmap_set ''Proxy-Authorization'' (or_empty (hp_cachedAuthHeader ag)) h0
                else h0)
      in if \<not> truthy (jsmap_get ''Proxy-Connection'' h1)
         then jsmap_set ''Proxy-Connection'' (hp_cachedProxyConnection ag) h1
         else h1)"

fun setHeaders :: "headers \<Rightarrow> ClientRequest \<Rightarrow> ClientRequest" where
  \<comment> \<open>\<open>for (const name in headers) { if (value) req.setHeader(name, value) }\<close>\<close>
  "setHeaders [] req = req"
| "setHeaders (p # ps) req =
     setHeaders ps (if snd p \<noteq> [] then setHeader (fst p) (snd p) req else req)"

definition setRequestProps ::
  "Lib \<Rightarrow> HttpProxyAgent \<Rightarrow> AgentConnectOpts \<Rightarrow> ClientRequest \<Rightarrow> (string, URL) jsmap \<Rightarrow>
   ClientRequest \<times> (string, URL) jsmap" where
  "setRequestProps lib ag opts req urlCache =
     (let protocol = (if opt_secureEndpoint opts = Some True then ''https:'' else ''http:'');
          hostname = (if truthy (getHeader ''host'' req) then or_empty (getHeader ''host'' req)
                      else ''localhost'');
          base = protocol @ ''//'' @ hostname;
          cacheKey = base @ req_path req @ string_of_nat (opt_port opts);
          (url, urlCache') =
            (case jsmap_get cacheKey urlCache of
               Some u \<Rightarrow> (u, jsmap_set cacheKey u (jsmap_delete cacheKey urlCache))
             | None \<Rightarrow>
                 (let u0 = newURL lib (req_path req) base;
                      u = (if opt_port opts \<noteq> 80
                           then setPort lib (string_of_nat (opt_port opts)) u0 else u0)
                  in (u, evictThenSet URL_CACHE_SIZE cacheKey u urlCache)))
      in (setHeaders (proxyRequestHeaders ag) (req\<lparr>req_path := url_href url\<rparr>), urlCache'))"



section \<open>socks-proxy-agent: the SOCKS tunnel\<close>

definition DNS_CACHE_TTL :: int where
  "DNS_CACHE_TTL = 5 * 60 * 1000"

definition MAX_POOL_SIZE :: nat where
  "MAX_POOL_SIZE = 100"

definition MAX_SOCKETS_PER_HOST :: nat where
  "MAX_SOCKETS_PER_HOST = 10"

record DNSCacheEntry =
  dns_address :: string
  dns_timestamp :: int

record SocketCacheEntry =
  sce_socket :: socket
  sce_lastUsed :: int
  sce_inUse :: bool

record SocksProxy =
  sp_host :: string
  sp_port :: nat
  sp_type :: nat
  sp_userId :: "string option"
  sp_password :: "string option"

definition parseSocksURL :: "Lib \<Rightarrow> URL \<Rightarrow> error + bool \<times> SocksProxy" where
  "parseSocksURL lib url =
     (let host = url_hostname url;
          port = (case parseInt10 (url_port url) of
                    None \<Rightarrow> 1080
                  | Some p \<Rightarrow> if p = 0 then 1080 else p);
          scheme = replace_colon (url_protocol url);
          versioned =
            (if scheme = ''socks4'' then Some (True, 4)
             else if scheme = ''socks4a'' then Some (False, 4)
             else if scheme = ''socks5'' then Some (True, 5)
             else if scheme = ''socks'' then Some (False, 5)
             else if scheme = ''socks5h'' then Some (False, 5)
             else None)
      in case versioned of
           None \<Rightarrow>
             Inl (TypeError (''A socks protocol must be specified! Got: '' @ url_protocol url))
         | Some (lookup, type) \<Rightarrow>
             Inr (lookup,
                  \<lparr>sp_host = host, sp_port = port, sp_type = type,
                   sp_userId = (if url_username url \<noteq> []
                                then Some (decodeURIComponent lib (url_username url)) else None),
                   sp_password = Some (decodeURIComponent lib (url_password url))\<rparr>))"

record SocksProxyAgent =
  shouldLookup :: bool
  spa_proxy :: SocksProxy
  spa_timeout :: "nat option"
  enablePooling :: bool
  enableDNSCache :: bool
  enableSocketCache :: bool
  enableAuthCache :: bool

record SocksProxyAgentOptions =
  o_timeout :: "nat option"
  o_enablePooling :: "bool option"
  o_enableDNSCache :: "bool option"
  o_enableSocketCache :: "bool option"
  o_enableAuthCache :: "bool option"

definition SocksProxyAgent_new ::
  "Lib \<Rightarrow> URL \<Rightarrow> SocksProxyAgentOptions option \<Rightarrow> error + SocksProxyAgent" where
  \<comment> \<open>the constructor: \<open>!== false\<close> switches a cache on by default, \<open>=== true\<close> does not\<close>
  "SocksProxyAgent_new lib url opts =
     (case parseSocksURL lib url of
        Inl err \<Rightarrow> Inl err
      | Inr (lookup, proxy) \<Rightarrow>
          Inr \<lparr>shouldLookup = lookup, spa_proxy = proxy,
               spa_timeout = (case opts of None \<Rightarrow> None | Some o' \<Rightarrow> o_timeout o'),
               enablePooling =
                 (case opts of None \<Rightarrow> True | Some o' \<Rightarrow> o_enablePooling o' \<noteq> Some False),
               enableDNSCache =
                 (case opts of None \<Rightarrow> True | Some o' \<Rightarrow> o_enableDNSCache o' \<noteq> Some False),
               enableSocketCache =
                 (case opts of None \<Rightarrow> False | Some o' \<Rightarrow> o_enableSocketCache o' = Some True),
               enableAuthCache =
                 (case opts of None \<Rightarrow> True | Some o' \<Rightarrow> o_enableAuthCache o' \<noteq> Some False)\<rparr>)"

definition poolKey :: "SocksProxy \<Rightarrow> string" where
  \<comment> \<open>\<open>`${proxy.host}:${proxy.port}:${proxy.type}`\<close>\<close>
  "poolKey proxy =
     sp_host proxy @ '':'' @ string_of_nat (sp_port proxy) @ '':'' @ string_of_nat (sp_type proxy)"

definition getAgent ::
  "Lib \<Rightarrow> URL \<Rightarrow> SocksProxyAgentOptions option \<Rightarrow> (string, SocksProxyAgent) jsmap \<Rightarrow>
   (error + SocksProxyAgent) \<times> (string, SocksProxyAgent) jsmap" where
  \<comment> \<open>the static \<open>getAgent\<close>, on the module's \<open>agentPool\<close>; of what \<open>parseSocksURL\<close>
      returns it reads the \<open>proxy\<close> only\<close>
  "getAgent lib url opts agentPool =
     (case parseSocksURL lib url of
        Inl err \<Rightarrow> (Inl err, agentPool)
      | Inr (lookup, proxy) \<Rightarrow>
          if (case opts of None \<Rightarrow> True | Some o' \<Rightarrow> o_enablePooling o' \<noteq> Some False)
          then
            (case jsmap_get (poolKey proxy) agentPool of
               Some agent \<Rightarrow> (Inr agent, agentPool)
             | None \<Rightarrow>
                 (case SocksProxyAgent_new lib url opts of
                    Inl err \<Rightarrow> (Inl err, agentPool)
                  | Inr agent \<Rightarrow>
                      (Inr agent, evictThenSet MAX_POOL_SIZE (poolKey proxy) agent agentPool)))
          else (SocksProxyAgent_new lib url opts, agentPool))"

datatype socks_event =
    Lookup string                           \<comment> \<open>\<open>lookupFn(host, {}, cb)\<close> was called\<close>
  | CreateConnection SocksProxy string nat  \<comment> \<open>the handshake, with its destination\<close>
  | TlsConnect socket "string option"
  | SocketDestroyed socket

record Socks =
  dnsCache :: "(string, DNSCacheEntry) jsmap"
  socketCache :: "(string, SocketCacheEntry list) jsmap"
  deadSockets :: "socket set"
  calls :: "socks_event list"

text \<open>The readings of \<open>Date.now()\<close> that one \<open>connect\<close> may take, in the order it takes them.\<close>

record Clock =
  t_check :: int     \<comment> \<open>when the DNS cache entry is tested\<close>
  t_store :: int     \<comment> \<open>when the resolver's callback stores its result\<close>
  t_socket :: int    \<comment> \<open>when the socket cache is read or written\<close>

definition resolveHost ::
  "(string \<Rightarrow> error + string) \<Rightarrow> SocksProxyAgent \<Rightarrow> Clock \<Rightarrow> string \<Rightarrow> Socks \<Rightarrow>
   (error + string) \<times> Socks" where
  \<comment> \<open>the \<open>if (shouldLookup)\<close> block of \<open>connect\<close>; \<open>lookupFn\<close> gives what the resolver's
      callback receives\<close>
  "resolveHost lookupFn ag clock host st =
     (if shouldLookup ag then
        (if enableDNSCache ag then
           (case (case jsmap_get host (dnsCache st) of
                    None \<Rightarrow> None
                  | Some cached \<Rightarrow>
                      if t_check clock - dns_timestamp cached < DNS_CACHE_TTL
                      then Some cached else None) of
              Some cached \<Rightarrow> (Inr (dns_address cached), st)
            | None \<Rightarrow>
                (let st1 = st\<lparr>calls := calls st @ [Lookup host]\<rparr> in
                 case lookupFn host of
                   Inl err \<Rightarrow> (Inl err, st1)
                 | Inr res \<Rightarrow>
                     (Inr res,
                      st1\<lparr>dnsCache :=
                            jsmap_set host
                              \<lparr>dns_address = res, dns_timestamp = t_store clock\<rparr>
                              (dnsCache st1)\<rparr>)))
         else
           (let st1 = st\<lparr>calls := calls st @ [Lookup host]\<rparr> in
            case lookupFn host of
              Inl err \<Rightarrow> (Inl err, st1)
            | Inr res \<Rightarrow> (Inr res, st1)))
      else (Inr host, st))"

fun markAvailable ::
  "socket set \<Rightarrow> int \<Rightarrow> SocketCacheEntry list \<Rightarrow> (socket \<times> SocketCacheEntry list) option" where
  \<comment> \<open>\<open>entries.find((e) => !e.inUse && !e.socket.destroyed)\<close>, then marking it in use\<close>
  "markAvailable dead now [] = None"
| "markAvailable dead now (e # es) =
     (if \<not> sce_inUse e \<and> sce_socket e \<notin> dead
      then Some (sce_socket e, e\<lparr>sce_inUse := True, sce_lastUsed := now\<rparr> # es)
      else map_option (\<lambda>(s, es'). (s, e # es')) (markAvailable dead now es))"

definition getCachedSocket :: "string \<Rightarrow> int \<Rightarrow> Socks \<Rightarrow> socket option \<times> Socks" where
  "getCachedSocket cacheKey now st =
     (case jsmap_get cacheKey (socketCache st) of
        None \<Rightarrow> (None, st)
      | Some entries \<Rightarrow>
          (case markAvailable (deadSockets st) now entries of
             None \<Rightarrow> (None, st)
           | Some (s, entries') \<Rightarrow>
               (Some s, st\<lparr>socketCache := jsmap_set cacheKey entries' (socketCache st)\<rparr>)))"

definition cacheSocket :: "string \<Rightarrow> socket \<Rightarrow> int \<Rightarrow> Socks \<Rightarrow> Socks" where
  "cacheSocket cacheKey s now st =
     (let entries = (case jsmap_get cacheKey (socketCache st) of None \<Rightarrow> [] | Some es \<Rightarrow> es);
          full = (length entries \<ge> MAX_SOCKETS_PER_HOST);
          st1 = (case (full, entries) of
                   (True, oldest # _) \<Rightarrow>
                     if \<not> sce_inUse oldest
                     then st\<lparr>deadSockets := insert (sce_socket oldest) (deadSockets st),
                             calls := calls st @ [SocketDestroyed (sce_socket oldest)]\<rparr>
                     else st
                 | _ \<Rightarrow> st);
          kept = (if full then tl entries else entries)
      in st1\<lparr>socketCache :=
               jsmap_set cacheKey
                 (kept @ [\<lparr>sce_socket = s, sce_lastUsed = now, sce_inUse = False\<rparr>])
                 (socketCache st1)\<rparr>)"

datatype socks_result =
    Tunnel socket
  | TlsOver socket

definition tunnelTo ::
  "Lib \<Rightarrow> (error + socket) \<Rightarrow> SocksProxyAgent \<Rightarrow> Clock \<Rightarrow> AgentConnectOpts \<Rightarrow> string \<Rightarrow>
   Socks \<Rightarrow> (error + socks_result) \<times> Socks" where
  \<comment> \<open>\<open>connect\<close> from the line that builds \<open>cacheKey\<close>, with the \<open>host\<close> it has by then;
      \<open>created\<close> is what \<open>SocksClient.createConnection\<close> settles with\<close>
  "tunnelTo lib created ag clock opts host st =
     (let proxy = spa_proxy ag;
          cacheKey = sp_host proxy @ '':'' @ string_of_nat (sp_port proxy) @ '':'' @
                     host @ '':'' @ string_of_nat (opt_port opts);
          (cachedSocket, st2) =
            (if enableSocketCache ag then getCachedSocket cacheKey (t_socket clock) st
             else (None, st))
      in case cachedSocket of
           Some s \<Rightarrow>
             (if opt_secureEndpoint opts = Some True
              then (Inr (TlsOver s),
                    st2\<lparr>calls := calls st2 @
                          [TlsConnect s (setServernameFromNonIpHost lib opts)]\<rparr>)
              else (Inr (Tunnel s), st2))
         | None \<Rightarrow>
             (let st3 = st2\<lparr>calls := calls st2 @
                               [CreateConnection proxy host (opt_port opts)]\<rparr>
              in case created of
                   Inl err \<Rightarrow> (Inl err, st3)
                 | Inr s \<Rightarrow>
                     (let st4 = (if enableSocketCache ag
                                 then cacheSocket cacheKey s (t_socket clock) st3
                                 else st3)
                      in if opt_secureEndpoint opts = Some True
                         then (Inr (TlsOver s),
                               st4\<lparr>calls := calls st4 @
                                     [TlsConnect s (setServernameFromNonIpHost lib opts)]\<rparr>)
                         else (Inr (Tunnel s), st4))))"

definition socks_connect ::
  "Lib \<Rightarrow> (string \<Rightarrow> error + string) \<Rightarrow> (error + socket) \<Rightarrow> SocksProxyAgent \<Rightarrow> Clock \<Rightarrow>
   AgentConnectOpts \<Rightarrow> Socks \<Rightarrow> (error + socks_result) \<times> Socks" where
  "socks_connect lib lookupFn created ag clock opts st =
     (case opt_host opts of
        None \<Rightarrow> (Inl (Error ''No `host` defined!''), st)
      | Some host0 \<Rightarrow>
          if host0 = [] then (Inl (Error ''No `host` defined!''), st)
          else
            (case resolveHost lookupFn ag clock host0 st of
               (Inl err, st1) \<Rightarrow> (Inl err, st1)
             | (Inr host, st1) \<Rightarrow> tunnelTo lib created ag clock opts host st1))"

definition newCalls :: "Socks \<Rightarrow> Socks \<Rightarrow> socks_event list" where
  \<comment> \<open>what a step added to the record of calls\<close>
  "newCalls st st' = drop (length (calls st)) (calls st')"

fun isLookup :: "socks_event \<Rightarrow> bool" where
  "isLookup (Lookup h) = True"
| "isLookup _ = False"

fun handshakeHost :: "socks_event \<Rightarrow> string option" where
  "handshakeHost (CreateConnection p d n) = Some d"
| "handshakeHost _ = None"

definition socksInit :: Socks where
  "socksInit = \<lparr>dnsCache = [], socketCache = [], deadSockets = {}, calls = []\<rparr>"

section \<open>proxy-agent: the dispatcher\<close>

text \<open>
  The agent cache is an \<open>LRUCache\<close> of the lru-cache package, a dependency whose code is
  not in the repository. It is modelled from the package's documented behaviour: entries
  are kept from most to least recently used; \<open>get\<close> makes a hit the most recent; \<open>set\<close>
  on a full cache evicts the least recently used entry; \<open>dispose\<close> is called with every
  value that leaves the cache, whether it is evicted, overwritten by \<open>set\<close>, or removed by
  \<open>delete\<close> or \<open>clear\<close>. Each operation returns the values it disposed of, in order.
\<close>

record 'v LRUCache =
  lru_max :: nat
  lru_entries :: "(string \<times> 'v) list"

definition lru_get :: "string \<Rightarrow> 'v LRUCache \<Rightarrow> 'v option \<times> 'v LRUCache" where
  "lru_get k c =
     (case jsmap_get k (lru_entries c) of
        None \<Rightarrow> (None, c)
      | Some v \<Rightarrow> (Some v, c\<lparr>lru_entries := (k, v) # jsmap_delete k (lru_entries c)\<rparr>))"

definition lru_set :: "string \<Rightarrow> 'v \<Rightarrow> 'v LRUCache \<Rightarrow> 'v list \<times> 'v LRUCache" where
  "lru_set k v c =
     (case jsmap_get k (lru_entries c) of
        Some old \<Rightarrow>
          (if old = v then [] else [old],
           c\<lparr>lru_entries := (k, v) # jsmap_delete k (lru_entries c)\<rparr>)
      | None \<Rightarrow>
          (if lru_entries c \<noteq> [] \<and> length (lru_entries c) \<ge> lru_max c
           then ([snd (last (lru_entries c))],
                 c\<lparr>lru_entries := (k, v) # butlast (lru_entries c)\<rparr>)
           else ([], c\<lparr>lru_entries := (k, v) # lru_entries c\<rparr>)))"

definition lru_forEach :: "'v LRUCache \<Rightarrow> 'v list" where
  \<comment> \<open>the values \<open>forEach\<close> visits, most recently used first\<close>
  "lru_forEach c = map snd (lru_entries c)"

definition lru_clear :: "'v LRUCache \<Rightarrow> 'v list \<times> 'v LRUCache" where
  "lru_clear c = (rev (map snd (lru_entries c)), c\<lparr>lru_entries := []\<rparr>)"

datatype agentCtor =
    HttpProxyAgentCtor
  | HttpsProxyAgentCtor
  | SocksProxyAgentCtor
  | PacProxyAgentCtor

datatype agentRef =
    DefaultHttpAgent            \<comment> \<open>\<open>this.httpAgent\<close>\<close>
  | DefaultHttpsAgent           \<comment> \<open>\<open>this.httpsAgent\<close>\<close>
  | TunnelAgent nat             \<comment> \<open>an agent made by \<open>new ctor(proxy, connectOpts)\<close>\<close>
  | Self                        \<comment> \<open>the dispatcher itself, for \<open>super.destroy()\<close>\<close>

definition VALID_PROTOCOLS :: "string list" where
  "VALID_PROTOCOLS =
     [''http'', ''https'', ''socks'', ''socks4'', ''socks4a'', ''socks5'', ''socks5h'',
      ''pac+data'', ''pac+file'', ''pac+ftp'', ''pac+http'', ''pac+https'']"

definition isValidProtocol :: "string \<Rightarrow> bool" where
  "isValidProtocol v = (v \<in> set VALID_PROTOCOLS)"

definition proxies :: "string \<Rightarrow> nat \<Rightarrow> agentCtor" where
  \<comment> \<open>\<open>proxies[proto][ctorIndex]\<close>, on a valid protocol\<close>
  "proxies proto ctorIndex =
     (if proto = ''http'' \<or> proto = ''https''
      then (if ctorIndex = 0 then HttpProxyAgentCtor else HttpsProxyAgentCtor)
      else if proto \<in> set [''socks'', ''socks4'', ''socks4a'', ''socks5'', ''socks5h'']
      then SocksProxyAgentCtor
      else PacProxyAgentCtor)"

definition maxProxyCacheSize :: nat where
  "maxProxyCacheSize = 100"

record ProxyAgent =
  pa_cache :: "nat LRUCache"
  proxyResolutionCache :: "(string, string) jsmap"
  agentConstructorCache :: "(string, agentCtor) jsmap"
  pa_constructed :: "(agentCtor \<times> string) list"   \<comment> \<open>the agents made so far; the n-th is \<open>TunnelAgent n\<close>\<close>
  pa_destroyed :: "agentRef list"                  \<comment> \<open>every call of \<open>destroy()\<close> on an agent, in order\<close>

record DispatchRequest =
  dr_upgrade :: "string option"     \<comment> \<open>\<open>req.getHeader('upgrade')\<close>\<close>
  dr_host :: "string option"        \<comment> \<open>\<open>req.getHeader('host')\<close>\<close>
  dr_path :: string

definition ProxyAgent_new :: ProxyAgent where
  "ProxyAgent_new =
     \<lparr>pa_cache = \<lparr>lru_max = 50, lru_entries = []\<rparr>, proxyResolutionCache = [],
      agentConstructorCache = [], pa_constructed = [], pa_destroyed = []\<rparr>"

definition destinationURL :: "Lib \<Rightarrow> bool \<Rightarrow> DispatchRequest \<Rightarrow> string \<times> string" where
  \<comment> \<open>the protocol and the \<open>href\<close> of the destination\<close>
  "destinationURL lib secureEndpoint req =
     (let isWebSocket = (dr_upgrade req = Some ''websocket'');
          protocol = (if secureEndpoint then (if isWebSocket then ''wss:'' else ''https:'')
                      else (if isWebSocket then ''ws:'' else ''http:''))
      in (protocol,
          url_href (newURL lib (dr_path req)
                      (protocol @ ''//'' @ (case dr_host req of None \<Rightarrow> ''undefined'' | Some h \<Rightarrow> h)))))"

definition resolveProxy ::
  "(string \<Rightarrow> error + string option) \<Rightarrow> string \<Rightarrow> ProxyAgent \<Rightarrow>
   (error + string option) \<times> ProxyAgent" where
  \<comment> \<open>the proxy for a destination URL: from the resolution cache, or from the resolver,
      whose answer is stored only when it is a non-empty string\<close>
  "resolveProxy getProxyForUrl url pa =
     (if jsmap_has url (proxyResolutionCache pa)
      then (Inr (jsmap_get url (proxyResolutionCache pa)), pa)
      else
        (case getProxyForUrl url of
           Inl err \<Rightarrow> (Inl err, pa)
         | Inr proxy \<Rightarrow>
             (Inr proxy,
              if truthy proxy then
                (let c1 = (if jsmap_size (proxyResolutionCache pa) \<ge> maxProxyCacheSize
                           then (case jsmap_firstKey (proxyResolutionCache pa) of
                                   None \<Rightarrow> proxyResolutionCache pa
                                 | Some firstKey \<Rightarrow>
                                     if firstKey \<noteq> []
                                     then jsmap_delete firstKey (proxyResolutionCache pa)
                                     else proxyResolutionCache pa)
                           else proxyResolutionCache pa)
                 in pa\<lparr>proxyResolutionCache := jsmap_set url (or_empty proxy) c1\<rparr>)
              else pa)))"

definition agentFor ::
  "Lib \<Rightarrow> bool \<Rightarrow> DispatchRequest \<Rightarrow> string \<Rightarrow> string \<Rightarrow> ProxyAgent \<Rightarrow>
   (error + agentRef) \<times> ProxyAgent" where
  \<comment> \<open>\<open>connect\<close> from the line that builds \<open>cacheKey\<close>: the cached agent for the proxy
      \<open>p\<close>, or a new one\<close>
  "agentFor lib secureEndpoint req protocol p pa =
     (let cacheKey = protocol @ ''+'' @ p;
          (agent, cache1) = lru_get cacheKey (pa_cache pa);
          pa2 = pa\<lparr>pa_cache := cache1\<rparr>
      in case agent of
           Some n \<Rightarrow> (Inr (TunnelAgent n), pa2)
         | None \<Rightarrow>
             (case parseURL lib p of
                None \<Rightarrow> (Inl (TypeError ''Invalid URL''), pa2)
              | Some proxyUrl \<Rightarrow>
                  (let proxyProto = replace_colon (url_protocol proxyUrl) in
                   if \<not> isValidProtocol proxyProto
                   then (Inl (Error (''Unsupported protocol for proxy URL: '' @ p)), pa2)
                   else
                     (let ctorIndex =
                            (if secureEndpoint \<or> dr_upgrade req = Some ''websocket''
                             then 1 else 0 :: nat);
                          constructorKey = proxyProto @ '':'' @ string_of_nat ctorIndex;
                          ctor = (case jsmap_get constructorKey (agentConstructorCache pa2) of
                                    Some c \<Rightarrow> c
                                  | None \<Rightarrow> proxies proxyProto ctorIndex);
                          n = length (pa_constructed pa2);
                          (disposed, cache2) = lru_set cacheKey n (pa_cache pa2)
                      in (Inr (TunnelAgent n),
                          pa2\<lparr>agentConstructorCache :=
                                 jsmap_set constructorKey ctor (agentConstructorCache pa2),
                               pa_constructed := pa_constructed pa2 @ [(ctor, p)],
                               pa_cache := cache2,
                               pa_destroyed :=
                                 pa_destroyed pa2 @ map TunnelAgent disposed\<rparr>)))))"

definition dispatch_connect ::
  "Lib \<Rightarrow> (string \<Rightarrow> error + string option) \<Rightarrow> bool \<Rightarrow> DispatchRequest \<Rightarrow> ProxyAgent \<Rightarrow>
   (error + agentRef) \<times> ProxyAgent" where
  "dispatch_connect lib getProxyForUrl secureEndpoint req pa =
     (let (protocol, url) = destinationURL lib secureEndpoint req in
      case resolveProxy getProxyForUrl url pa of
        (Inl err, pa1) \<Rightarrow> (Inl err, pa1)
      | (Inr proxy, pa1) \<Rightarrow>
          if \<not> truthy proxy
          then (Inr (if secureEndpoint then DefaultHttpsAgent else DefaultHttpAgent), pa1)
          else agentFor lib secureEndpoint req protocol (or_empty proxy) pa1)"

definition dispatch_destroy :: "ProxyAgent \<Rightarrow> ProxyAgent" where
  "dispatch_destroy pa =
     (let visited = lru_forEach (pa_cache pa);
          (disposed, cache1) = lru_clear (pa_cache pa)
      in pa\<lparr>pa_cache := cache1,
            proxyResolutionCache := [],
            agentConstructorCache := [],
            pa_destroyed :=
              pa_destroyed pa @ map TunnelAgent visited @ map TunnelAgent disposed @
              [DefaultHttpAgent, DefaultHttpsAgent, Self]\<rparr>)"

definition destroyCount :: "agentRef \<Rightarrow> ProxyAgent \<Rightarrow> nat" where
  "destroyCount a pa = count_list (pa_destroyed pa) a"

section \<open>Concrete inputs\<close>

text \<open>
  A proxy URL with credentials, stand-ins for the library functions, and agents on that
  proxy; the theorems below are run on them.
\<close>

definition stubURL :: URL where
  "stubURL =
     \<lparr>url_protocol = ''http:'', url_hostname = ''proxy.local'', url_port = ''8080'',
      url_username = ''user'', url_password = ''pw'',
      url_href = ''http://user:pw@proxy.local:8080/''\<rparr>"

definition stubLib :: Lib where
  "stubLib =
     \<lparr>isIP = (\<lambda>h. False), isIPv6 = (\<lambda>h. False), base64 = (\<lambda>s. s),
      decodeURIComponent = (\<lambda>s. s),
      newURL = (\<lambda>path base. stubURL\<lparr>url_href := base @ path\<rparr>),
      setPort = (\<lambda>p u. u\<lparr>url_port := p\<rparr>),
      parseURL = (\<lambda>s. if s = url_href stubURL then Some stubURL else None)\<rparr>"

definition stubHttpsAgent :: HttpsProxyAgent where
  "stubHttpsAgent =
     \<lparr>hpa_proxy = stubURL, hpa_proxyHeaders = StaticHeaders [],
      hpa_sessionCacheKey = ''http://proxy.local:8080'', hpa_keepAlive = False\<rparr>"

definition stubOpts :: AgentConnectOpts where
  "stubOpts =
     \<lparr>opt_host = Some ''api.example.com'', opt_port = 443, opt_protocol = Some ''https:'',
      opt_secureEndpoint = Some True, opt_servername = None\<rparr>"



definition socks5URL :: URL where
  "socks5URL =
     \<lparr>url_protocol = ''socks5:'', url_hostname = ''proxy.local'', url_port = ''1080'',
      url_username = [], url_password = [], url_href = ''socks5://proxy.local:1080''\<rparr>"

definition socks5hURL :: URL where
  "socks5hURL = socks5URL\<lparr>url_protocol := ''socks5h:'', url_href := ''socks5h://proxy.local:1080''\<rparr>"

definition stubSocksProxy :: SocksProxy where
  "stubSocksProxy =
     \<lparr>sp_host = ''proxy.local'', sp_port = 1080, sp_type = 5, sp_userId = None,
      sp_password = Some []\<rparr>"

definition stubSocksAgent :: "bool \<Rightarrow> SocksProxyAgent" where
  \<comment> \<open>what the constructor makes of \<open>socks5URL\<close> (lookup) or \<open>socks5hURL\<close> (no lookup)
      when it is given no options\<close>
  "stubSocksAgent lookup =
     \<lparr>shouldLookup = lookup, spa_proxy = stubSocksProxy, spa_timeout = None,
      enablePooling = True, enableDNSCache = True, enableSocketCache = False,
      enableAuthCache = True\<rparr>"

definition stubResolver :: "string \<Rightarrow> error + string" where
  "stubResolver h = Inr ''93.184.216.34''"

definition clockAt :: "int \<Rightarrow> Clock" where
  "clockAt t = \<lparr>t_check = t, t_store = t + 5, t_socket = t + 6\<rparr>"

definition stubRequest :: DispatchRequest where
  "stubRequest = \<lparr>dr_upgrade = None, dr_host = Some ''api.example.com'', dr_path = ''/''\<rparr>"

definition stubProxyResolver :: "string \<Rightarrow> error + string option" where
  \<comment> \<open>a resolver that sends every URL through the proxy of \<open>stubURL\<close>\<close>
  "stubProxyResolver u = Inr (Some ''http://user:pw@proxy.local:8080/'')"


definition stubHttpOpts :: AgentConnectOpts where
  "stubHttpOpts =
     \<lparr>opt_host = Some ''api.example.com'', opt_port = 80, opt_protocol = Some ''http:'',
      opt_secureEndpoint = Some False, opt_servername = None\<rparr>"

definition stubClientRequest :: ClientRequest where
  "stubClientRequest =
     \<lparr>req_path = ''/index.html'', req_headers = [(''host'', (''Host'', ''api.example.com''))]\<rparr>"

definition exactCaseAgent :: HttpProxyAgent where
  \<comment> \<open>\<open>new HttpProxyAgent(proxy, { keepAlive: true, headers: { 'Proxy-Connection': 'close',
      'X-Trace': '1' } })\<close>\<close>
  "exactCaseAgent =
     HttpProxyAgent_new stubLib stubURL
       (StaticHeaders [(''Proxy-Connection'', ''close''), (''X-Trace'', ''1'')]) True"

definition lowerCaseAgent :: HttpProxyAgent where
  \<comment> \<open>\<open>new HttpProxyAgent(proxy, { keepAlive: true, headers: { 'proxy-connection': 'close',
      'Proxy-Authorization': 'Bearer token' } })\<close>\<close>
  "lowerCaseAgent =
     HttpProxyAgent_new stubLib stubURL
       (StaticHeaders [(''proxy-connection'', ''close''),
                       (''Proxy-Authorization'', ''Bearer token'')]) True"

section \<open>Properties of the broker\<close>

lemma incrementSockets_unbounded:
  "maxSockets a = \<infinity> \<Longrightarrow> maxTotalSockets a = \<infinity> \<Longrightarrow> incrementSockets name a = (None, a)"
  by (simp add: incrementSockets_def)

lemma decrementSockets_null: "decrementSockets name None a = a"
  by (simp add: decrementSockets_def split: option.splits)

text \<open>
  C9. When \<open>maxSockets\<close> and \<open>maxTotalSockets\<close> are both \<open>Infinity\<close>, the admission
  increment creates no placeholder socket (it returns \<open>null\<close> and leaves the agent as it
  was), and the matching decrement, called with that \<open>null\<close>, leaves the \<open>sockets\<close> map and
  \<open>totalSocketCount\<close> unchanged: the placeholder accounting is skipped altogether.
\<close>

theorem unbounded_pool_skips_placeholder:
  assumes "maxSockets a = \<infinity>" and "maxTotalSockets a = \<infinity>"
  shows "fst (incrementSockets name a) = None
       \<and> snd (incrementSockets name a) = a
       \<and> sockets (decrementSockets name (fst (incrementSockets name a))
                     (snd (incrementSockets name a))) = sockets a
       \<and> totalSocketCount (decrementSockets name (fst (incrementSockets name a))
                     (snd (incrementSockets name a))) = totalSocketCount a"
  using assms by (simp add: incrementSockets_unbounded decrementSockets_null)

theorem unbounded_pool_skips_placeholder_witness:
  "maxSockets (brokerInit \<infinity> \<infinity>) = \<infinity>
   \<and> maxTotalSockets (brokerInit \<infinity> \<infinity>) = \<infinity>
   \<and> fst (incrementSockets ''localhost:80:'' (brokerInit \<infinity> \<infinity>)) = None
   \<and> totalSocketCount
        (decrementSockets ''localhost:80:''
           (fst (incrementSockets ''localhost:80:'' (brokerInit \<infinity> \<infinity>)))
           (snd (incrementSockets ''localhost:80:'' (brokerInit \<infinity> \<infinity>)))) = 0"
proof -
  have h1: "maxSockets (brokerInit \<infinity> \<infinity>) = \<infinity>" by (simp add: brokerInit_def)
  have h2: "maxTotalSockets (brokerInit \<infinity> \<infinity>) = \<infinity>" by (simp add: brokerInit_def)
  have h3: "totalSocketCount (brokerInit \<infinity> \<infinity>) = 0" by (simp add: brokerInit_def)
  show ?thesis
    using unbounded_pool_skips_placeholder [OF h1 h2, of "''localhost:80:''"] h1 h2 h3
    by (simp add: decrementSockets_null)
qed

subsection \<open>One increment, one decrement\<close>

lemma indexOf_append_fresh: "x \<notin> set xs \<Longrightarrow> indexOf (xs @ [x]) x = Some (length xs)"
  by (induction xs) auto

lemma splice1_last: "splice1 (xs @ [x]) (length xs) = xs"
  by (simp add: splice1_def)

lemma increment_then_decrement_total:
  assumes "\<forall>arr. sockets a name = Some arr \<longrightarrow> nextSocket a \<notin> set arr"
  shows "totalSocketCount (decrementSockets name (fst (incrementSockets name a))
                             (snd (incrementSockets name a))) = totalSocketCount a"
  using assms
  by (auto simp: incrementSockets_def decrementSockets_def Let_def indexOf_append_fresh
      splice1_last split: option.splits)

lemma events_decrementSockets: "events (decrementSockets name s a) = events a"
  by (simp add: decrementSockets_def Let_def split: option.splits)

lemma afterConnect_one_decrement:
  "length (filter isDecrement (events (afterConnect name fs c a)))
   = Suc (length (filter isDecrement (events a)))"
  by (cases c) (simp_all add: afterConnect_def Let_def)

lemma createSocket_settled_one_decrement:
  "length (filter isDecrement (events (createSocket_settled name fs outcome a)))
   = Suc (length (filter isDecrement (events a)))"
  by (cases outcome) (simp_all add: createSocket_settled_def afterConnect_one_decrement)


lemma events_isSecureEndpoint: "events (snd (isSecureEndpoint stack options a)) = events a"
  by (simp add: isSecureEndpoint_def Let_def split: option.splits)

lemma events_incrementSockets: "events (snd (incrementSockets name a)) = events a"
  by (simp add: incrementSockets_def Let_def)

lemma events_getName: "events (snd (getName hn hsn stack options a)) = events a"
  by (simp add: getName_def split: prod.splits)
     (metis events_isSecureEndpoint snd_conv)

lemma afterConnect_no_increment:
  "filter isIncrement (events (afterConnect name fs c a)) = filter isIncrement (events a)"
  by (cases c) (simp_all add: afterConnect_def Let_def)


lemma createSocket_one_increment:
  "length (filter isIncrement (events (snd (createSocket hn hsn stack opts r a))))
   = Suc (length (filter isIncrement (events a)))"
  by (simp add: createSocket_def Let_def case_prod_beta events_isSecureEndpoint
      events_incrementSockets events_getName afterConnect_no_increment
      split: connectResult.splits connected.splits)

lemma createSocket_returns_one_decrement:
  "c \<noteq> Falsy \<Longrightarrow>
   fst (createSocket hn hsn stack opts (Returns c) a) = Inr Done
   \<and> length (filter isDecrement (events (snd (createSocket hn hsn stack opts (Returns c) a))))
     = Suc (length (filter isDecrement (events a)))"
  by (simp add: createSocket_def Let_def case_prod_beta events_isSecureEndpoint
      events_incrementSockets events_getName afterConnect_one_decrement
      split: connected.splits)

lemma createSocket_pending_no_decrement:
  "r = Thenable \<or> r = Returns Falsy \<Longrightarrow>
   (\<exists>name fs. fst (createSocket hn hsn stack opts r a) = Inr (Awaiting name fs))
   \<and> filter isDecrement (events (snd (createSocket hn hsn stack opts r a)))
     = filter isDecrement (events a)"
  by (auto simp: createSocket_def Let_def case_prod_beta events_isSecureEndpoint
      events_incrementSockets events_getName)

lemma createSocket_throws_no_decrement:
  "fst (createSocket hn hsn stack opts (Throws err) a) = Inl err
   \<and> filter isDecrement (events (snd (createSocket hn hsn stack opts (Throws err) a)))
     = filter isDecrement (events a)"
  by (simp add: createSocket_def Let_def case_prod_beta events_isSecureEndpoint
      events_incrementSockets events_getName)

text \<open>
  The three ways in which \<open>createSocket\<close> goes on after \<open>connect\<close> came back (a value
  returned at once, a promise fulfilled, a promise rejected) each decrement once, as the
  lemmas above show. When \<open>connect\<close> throws instead of returning, the exception leaves
  \<open>createSocket\<close> after the increment and no decrement follows.
\<close>

text \<open>
  C2. Every tunnel attempt through \<open>createSocket\<close> increments once, before \<open>connect\<close> is
  called, and decrements once when the attempt settles. The code breaks this when a
  subclass's \<open>connect\<close> throws synchronously: on an agent with \<open>maxSockets = 1\<close> the
  placeholder stays in \<open>sockets\<close> and \<open>totalSocketCount\<close> stays at \<open>1\<close>, with no decrement.
\<close>

theorem createSocket_sync_throw_leaks:
  "fst (createSocket (\<lambda>_. ''localhost:80:'') (\<lambda>_. ''localhost:443:'') None
          \<lparr>opt_host = Some ''localhost'', opt_port = 80, opt_protocol = Some ''http:'',
            opt_secureEndpoint = Some False, opt_servername = None\<rparr>
          (Throws (Error ''no host'')) (brokerInit 1 \<infinity>)) = Inl (Error ''no host'')
   \<and> events (snd (createSocket (\<lambda>_. ''localhost:80:'') (\<lambda>_. ''localhost:443:'') None
          \<lparr>opt_host = Some ''localhost'', opt_port = 80, opt_protocol = Some ''http:'',
            opt_secureEndpoint = Some False, opt_servername = None\<rparr>
          (Throws (Error ''no host'')) (brokerInit 1 \<infinity>)))
       = [EvIncrement ''localhost:80:'' (Some 0), EvConnect]
   \<and> totalSocketCount (snd (createSocket (\<lambda>_. ''localhost:80:'') (\<lambda>_. ''localhost:443:'') None
          \<lparr>opt_host = Some ''localhost'', opt_port = 80, opt_protocol = Some ''http:'',
            opt_secureEndpoint = Some False, opt_servername = None\<rparr>
          (Throws (Error ''no host'')) (brokerInit 1 \<infinity>))) = 1
   \<and> sockets (snd (createSocket (\<lambda>_. ''localhost:80:'') (\<lambda>_. ''localhost:443:'') None
          \<lparr>opt_host = Some ''localhost'', opt_port = 80, opt_protocol = Some ''http:'',
            opt_secureEndpoint = Some False, opt_servername = None\<rparr>
          (Throws (Error ''no host'')) (brokerInit 1 \<infinity>))) ''localhost:80:'' = Some [0]"
  by (simp add: createSocket_def getName_def isSecureEndpoint_def explicitEndpoint_def
      incrementSockets_def brokerInit_def)

subsection \<open>The one-entry cache of the stack inspection\<close>

lemma isSecureEndpoint_fallback_holds:
  assumes "explicitEndpoint o1 = None"
  shows "cachedEndpointKey (snd (isSecureEndpoint stack o1 a)) = Some (endpointCacheKey o1)
       \<and> cachedSecureEndpoint (snd (isSecureEndpoint stack o1 a)) = Some (fst (isSecureEndpoint stack o1 a))"
  using assms by (auto simp: isSecureEndpoint_def Let_def split: option.splits if_splits)

lemma isSecureEndpoint_keeps_slot:
  assumes "cachedEndpointKey a = Some k" and "cachedSecureEndpoint a = Some r"
    and "explicitEndpoint o1 \<noteq> None \<or> endpointCacheKey o1 = k"
  shows "cachedEndpointKey (snd (isSecureEndpoint stack o1 a)) = Some k
       \<and> cachedSecureEndpoint (snd (isSecureEndpoint stack o1 a)) = Some r"
  using assms by (auto simp: isSecureEndpoint_def Let_def split: option.splits if_splits)

lemma isSecureEndpoint_seq_keeps_slot:
  assumes "cachedEndpointKey a = Some k" and "cachedSecureEndpoint a = Some r"
    and "\<forall>c \<in> set cs. explicitEndpoint (snd c) \<noteq> None \<or> endpointCacheKey (snd c) = k"
  shows "cachedEndpointKey (isSecureEndpoint_seq cs a) = Some k
       \<and> cachedSecureEndpoint (isSecureEndpoint_seq cs a) = Some r"
  using assms
proof (induction cs arbitrary: a)
  case Nil
  then show ?case by simp
next
  case (Cons c cs)
  have step: "cachedEndpointKey (snd (isSecureEndpoint (fst c) (snd c) a)) = Some k
       \<and> cachedSecureEndpoint (snd (isSecureEndpoint (fst c) (snd c) a)) = Some r"
    using Cons.prems isSecureEndpoint_keeps_slot [of a k r "snd c" "fst c"] by simp
  show ?case
    using Cons.IH [of "snd (isSecureEndpoint (fst c) (snd c) a)"] step Cons.prems(3) by simp
qed

lemma isSecureEndpoint_hit:
  assumes "cachedEndpointKey a = Some k" and "cachedSecureEndpoint a = Some r"
    and "explicitEndpoint o2 = None" and "endpointCacheKey o2 = k"
  shows "isSecureEndpoint stack o2 a = (r, a)"
  using assms by (simp add: isSecureEndpoint_def)

text \<open>
  C10 (as amended). Once a call of \<open>isSecureEndpoint\<close> has reached the stack-inspection
  fallback for a cache key, every later call on the same agent that reaches the fallback
  with the same key returns the same boolean, whatever its call stack, provided that no
  call in between reached the fallback with a different key: the agent remembers one key
  only.
\<close>

theorem fallback_result_cached_until_other_key:
  assumes "explicitEndpoint o1 = None"
    and "\<forall>c \<in> set between. explicitEndpoint (snd c) \<noteq> None
                           \<or> endpointCacheKey (snd c) = endpointCacheKey o1"
    and "explicitEndpoint o2 = None"
    and "endpointCacheKey o2 = endpointCacheKey o1"
  shows "fst (isSecureEndpoint stack2 o2
               (isSecureEndpoint_seq between (snd (isSecureEndpoint stack1 o1 a))))
         = fst (isSecureEndpoint stack1 o1 a)"
proof -
  let ?a1 = "snd (isSecureEndpoint stack1 o1 a)"
  let ?r = "fst (isSecureEndpoint stack1 o1 a)"
  have slot1: "cachedEndpointKey ?a1 = Some (endpointCacheKey o1) \<and> cachedSecureEndpoint ?a1 = Some ?r"
    using assms(1) by (rule isSecureEndpoint_fallback_holds)
  have slot2: "cachedEndpointKey (isSecureEndpoint_seq between ?a1) = Some (endpointCacheKey o1)
             \<and> cachedSecureEndpoint (isSecureEndpoint_seq between ?a1) = Some ?r"
    using slot1 assms(2) isSecureEndpoint_seq_keeps_slot [of ?a1 "endpointCacheKey o1" ?r between]
    by blast
  show ?thesis
    using slot2 assms(3,4)
      isSecureEndpoint_hit [of "isSecureEndpoint_seq between ?a1" "endpointCacheKey o1" ?r o2 stack2]
    by simp
qed

theorem fallback_result_cached_until_other_key_witness:
  "explicitEndpoint None = None
   \<and> explicitEndpoint (Some \<lparr>opt_host = None, opt_port = 80, opt_protocol = Some ''http:'',
                      opt_secureEndpoint = None, opt_servername = None\<rparr>) = Some False
   \<and> fst (isSecureEndpoint (Some ''at request (node:https:12)'') None (brokerInit 1 1)) = True
   \<and> fst (isSecureEndpoint (Some ''at main'') None
           (isSecureEndpoint_seq
              [(Some ''at main'', Some \<lparr>opt_host = None, opt_port = 80, opt_protocol = Some ''http:'',
                      opt_secureEndpoint = None, opt_servername = None\<rparr>)]
              (snd (isSecureEndpoint (Some ''at request (node:https:12)'') None (brokerInit 1 1)))))
       = True"
proof -
  let ?between = "[(Some ''at main'', Some \<lparr>opt_host = None, opt_port = 80, opt_protocol = Some ''http:'',
                      opt_secureEndpoint = None, opt_servername = None\<rparr>)]"
  have h1: "explicitEndpoint None = None" by (simp add: explicitEndpoint_def)
  have h2: "\<forall>c \<in> set ?between.
          explicitEndpoint (snd c) \<noteq> None \<or> endpointCacheKey (snd c) = endpointCacheKey None"
    by (simp add: explicitEndpoint_def)
  have h3: "endpointCacheKey None = endpointCacheKey None" by simp
  have r: "fst (isSecureEndpoint (Some ''at request (node:https:12)'') None (brokerInit 1 1)) = True"
    by (simp add: isSecureEndpoint_def explicitEndpoint_def endpointCacheKey_def brokerInit_def
        stackSaysHttps_def)
  show ?thesis
    using fallback_result_cached_until_other_key [OF h1 h2 h1 h3, of "Some ''at main''"
        "Some ''at request (node:https:12)''" "brokerInit 1 1"] h1 r
    by (simp add: explicitEndpoint_def)
qed

text \<open>
  The claim without the proviso fails: a call without options from inside the https
  module caches \<open>true\<close> under \<open>no-options\<close>; a call with options that name neither
  \<open>secureEndpoint\<close> nor \<open>protocol\<close> replaces the entry; the next call without options,
  from elsewhere, inspects its own stack and returns \<open>false\<close>.
\<close>

theorem fallback_cache_overwritten_counterexample:
  "explicitEndpoint None = None
   \<and> fst (isSecureEndpoint (Some ''at request (node:https:12)'') None (brokerInit 1 1)) = True
   \<and> fst (isSecureEndpoint (Some ''at main'') None
        (snd (isSecureEndpoint (Some ''at main'')
               (Some \<lparr>opt_host = None, opt_port = 80, opt_protocol = None,
                       opt_secureEndpoint = None, opt_servername = None\<rparr>)
          (snd (isSecureEndpoint (Some ''at request (node:https:12)'') None
                  (brokerInit 1 1)))))) = False"
  by (simp add: isSecureEndpoint_def explicitEndpoint_def endpointCacheKey_def brokerInit_def
      stackSaysHttps_def or_empty_def bool_or_empty_def)

section \<open>Properties of the CONNECT tunnel\<close>

lemma session_lookup_net:
  "trace (case x of Some s \<Rightarrow> st\<lparr>connectSession := Some s\<rparr> | None \<Rightarrow> st) = trace st
   \<and> readOnly (case x of Some s \<Rightarrow> st\<lparr>connectSession := Some s\<rparr> | None \<Rightarrow> st) = readOnly st
   \<and> destroyedSockets (case x of Some s \<Rightarrow> st\<lparr>connectSession := Some s\<rparr> | None \<Rightarrow> st)
       = destroyedSockets st
   \<and> freshSocket (case x of Some s \<Rightarrow> st\<lparr>connectSession := Some s\<rparr> | None \<Rightarrow> st)
       = freshSocket st
   \<and> commonHeadersCache (case x of Some s \<Rightarrow> st\<lparr>connectSession := Some s\<rparr> | None \<Rightarrow> st)
       = commonHeadersCache st
   \<and> sessionCache (case x of Some s \<Rightarrow> st\<lparr>connectSession := Some s\<rparr> | None \<Rightarrow> st)
       = sessionCache st"
  by (cases x) simp_all

text \<open>
  C1. In every CONNECT tunnel attempt the only bytes \<open>connect\<close> writes to the proxy socket
  are the CONNECT request itself (request line and proxy headers), written before the
  proxy answers; it is built from the proxy, the destination host and port and the proxy
  headers, never from the caller's request. Whatever the proxy answers, error included,
  nothing else is written. On a status other than 200 the proxy socket is destroyed at
  once, and the caller is given another socket, a read-only one: a write to it, or to the
  destroyed proxy socket, puts nothing on the wire, and when the request's \<open>socket\<close> event
  fires with a data listener attached it replays the buffered response bytes and then
  end-of-stream.
\<close>

theorem connect_writes_only_the_CONNECT_request:
  fixes st :: HttpsProxy and lib :: Lib and ag :: HttpsProxyAgent and opts :: AgentConnectOpts
    and status :: nat and buffered :: string and host :: string
  assumes fresh: "freshSocket st \<notin> readOnly st" "freshSocket st \<notin> destroyedSockets st"
    and host: "opt_host opts = Some host" "host \<noteq> []"
  defines "res \<equiv> https_connect lib ag opts (Inr (status, buffered)) st"
    and "p \<equiv> freshSocket st"
    and "payload \<equiv> connectPayload lib host (opt_port opts)
                     (fst (connectHeaders lib ag host (opt_port opts) (commonHeadersCache st)))"
  shows "fst (https_connect lib ag opts (Inl err) st) = Inl err
       \<and> trace (snd (https_connect lib ag opts (Inl err) st))
           = trace st @ [Opened p (url_protocol (hpa_proxy ag) = ''https:''), Wrote p payload]
       \<and> (\<exists>r. fst res = Inr r \<and> ret_proxySocket r = p
          \<and> (\<exists>rest. trace (snd res)
                       = trace st @ [Opened p (url_protocol (hpa_proxy ag) = ''https:''),
                                     Wrote p payload, Responded status] @ rest
                \<and> (\<forall>s bytes. Wrote s bytes \<notin> set rest))
          \<and> (status \<noteq> 200 \<longrightarrow>
                trace (snd res)
                  = trace st @ [Opened p (url_protocol (hpa_proxy ag) = ''https:''),
                                Wrote p payload, Responded status, Destroyed p]
              \<and> p \<in> destroyedSockets (snd res)
              \<and> ret_socket r \<noteq> p
              \<and> ret_socket r \<in> readOnly (snd res)
              \<and> ret_onSocket r = Replay buffered
              \<and> (\<forall>bytes. socket_write (ret_socket r) bytes (snd res) = snd res)
              \<and> (\<forall>bytes. socket_write p bytes (snd res) = snd res)
              \<and> (\<forall>listeners. 0 < listeners \<longrightarrow>
                    socketEvent (ret_onSocket r) (ret_socket r) listeners (snd res)
                    = Inr ((snd res)\<lparr>trace := trace (snd res) @
                             [Pushed (ret_socket r) (Some buffered),
                              Pushed (ret_socket r) None]\<rparr>))))"
  using fresh host
  unfolding res_def p_def payload_def
  by (simp add: https_connect_def Let_def case_prod_beta newSocket_def socket_write_def
      socket_destroy_def socketEvent_def session_lookup_net)

theorem connect_writes_only_the_CONNECT_request_witness:
  "freshSocket httpsProxyInit \<notin> readOnly httpsProxyInit
   \<and> freshSocket httpsProxyInit \<notin> destroyedSockets httpsProxyInit
   \<and> opt_host stubOpts = Some ''api.example.com''
   \<and> trace (snd (https_connect stubLib stubHttpsAgent stubOpts
                    (Inr (407, ''HTTP/1.1 407 Proxy Authentication Required'')) httpsProxyInit))
       = [Opened 0 False,
          Wrote 0 (''CONNECT api.example.com:443 HTTP/1.1'' @ CRLF @
                   ''Proxy-Authorization: Basic user:pw'' @ CRLF @
                   ''Host: api.example.com:443'' @ CRLF @
                   ''Proxy-Connection: close'' @ CRLF @ CRLF),
          Responded 407, Destroyed 0]"
proof -
  have h1: "freshSocket httpsProxyInit \<notin> readOnly httpsProxyInit"
    by (simp add: httpsProxyInit_def)
  have h2: "freshSocket httpsProxyInit \<notin> destroyedSockets httpsProxyInit"
    by (simp add: httpsProxyInit_def)
  have h3: "opt_host stubOpts = Some ''api.example.com''" by (simp add: stubOpts_def)
  have h4: "''api.example.com'' \<noteq> []" by simp
  have h5: "(407::nat) \<noteq> 200" by simp
  have payload: "connectPayload stubLib ''api.example.com'' (opt_port stubOpts)
          (fst (connectHeaders stubLib stubHttpsAgent ''api.example.com'' (opt_port stubOpts)
                 (commonHeadersCache httpsProxyInit)))
        = ''CONNECT api.example.com:443 HTTP/1.1'' @ CRLF @
                   ''Proxy-Authorization: Basic user:pw'' @ CRLF @
                   ''Host: api.example.com:443'' @ CRLF @
                   ''Proxy-Connection: close'' @ CRLF @ CRLF"
    by (simp add: connectPayload_def connectHeaders_def headerCacheKey_def Let_def stubLib_def
        stubOpts_def stubHttpsAgent_def stubURL_def httpsProxyInit_def providedHeaders_def
        basicAuth_def bracketIPv6_def truthy_def string_of_nat.simps digit_char_def)
  show ?thesis
    using connect_writes_only_the_CONNECT_request [OF h1 h2 h3 h4, of stubLib stubHttpsAgent
        "Rejected ''x''" 407 "''HTTP/1.1 407 Proxy Authentication Required''"] h1 h2 h3 h5 payload
    by (auto simp: httpsProxyInit_def stubHttpsAgent_def stubURL_def)
qed

section \<open>Properties of the caches\<close>

lemma jsmap_get_None_iff: "jsmap_get k m = None \<longleftrightarrow> k \<notin> fst ` set m"
  by (induction m) auto

lemma jsmap_set_fresh: "k \<notin> fst ` set m \<Longrightarrow> jsmap_set k v m = m @ [(k, v)]"
  by (induction m) auto











section \<open>Properties of the SOCKS tunnel\<close>

lemma jsmap_get_set_same: "jsmap_get k (jsmap_set k v m) = Some v"
  by (induction m) auto

lemma calls_getCachedSocket: "calls (snd (getCachedSocket key now st)) = calls st"
  by (simp add: getCachedSocket_def split: option.splits prod.splits)

lemma dnsCache_getCachedSocket: "dnsCache (snd (getCachedSocket key now st)) = dnsCache st"
  by (simp add: getCachedSocket_def split: option.splits prod.splits)

lemma calls_cacheSocket:
  "\<exists>ds. calls (cacheSocket key s now st) = calls st @ ds
        \<and> (\<forall>e \<in> set ds. \<not> isLookup e \<and> handshakeHost e = None)"
  by (auto simp: cacheSocket_def Let_def split: list.splits bool.splits)

lemma dnsCache_cacheSocket: "dnsCache (cacheSocket key s now st) = dnsCache st"
  by (simp add: cacheSocket_def Let_def split: list.splits bool.splits)

lemma tunnelTo_calls:
  "\<exists>tail. calls (snd (tunnelTo lib created ag clock opts host st)) = calls st @ tail
         \<and> (\<forall>e \<in> set tail. \<not> isLookup e \<and> (handshakeHost e = None \<or> handshakeHost e = Some host))"
proof -
  define key where "key = sp_host (spa_proxy ag) @ '':'' @ string_of_nat (sp_port (spa_proxy ag)) @
                           '':'' @ host @ '':'' @ string_of_nat (opt_port opts)"
  define g where "g = (if enableSocketCache ag then getCachedSocket key (t_socket clock) st
                       else (None, st))"
  define st3 where "st3 = (snd g)\<lparr>calls := calls (snd g) @
                             [CreateConnection (spa_proxy ag) host (opt_port opts)]\<rparr>"
  define st4 where "st4 = (\<lambda>s. if enableSocketCache ag then cacheSocket key s (t_socket clock) st3
                                else st3)"
  have unf: "tunnelTo lib created ag clock opts host st =
      (case fst g of
         Some s \<Rightarrow>
           (if opt_secureEndpoint opts = Some True
            then (Inr (TlsOver s),
                  (snd g)\<lparr>calls := calls (snd g) @
                        [TlsConnect s (setServernameFromNonIpHost lib opts)]\<rparr>)
            else (Inr (Tunnel s), snd g))
       | None \<Rightarrow>
           (case created of
              Inl err \<Rightarrow> (Inl err, st3)
            | Inr s \<Rightarrow>
                (if opt_secureEndpoint opts = Some True
                 then (Inr (TlsOver s),
                       (st4 s)\<lparr>calls := calls (st4 s) @
                             [TlsConnect s (setServernameFromNonIpHost lib opts)]\<rparr>)
                 else (Inr (Tunnel s), st4 s))))"
    unfolding tunnelTo_def g_def key_def st3_def st4_def Let_def case_prod_beta
    by (rule refl)
  have cg: "calls (snd g) = calls st"
    by (simp add: g_def calls_getCachedSocket)
  have c3: "calls st3 = calls st @ [CreateConnection (spa_proxy ag) host (opt_port opts)]"
    by (simp add: st3_def cg)
  have c4: "\<exists>ds. calls (st4 s) = calls st3 @ ds
             \<and> (\<forall>e \<in> set ds. \<not> isLookup e \<and> handshakeHost e = None)" for s
    using calls_cacheSocket [of key s "t_socket clock" st3] by (simp add: st4_def)
  show ?thesis
  proof (cases "fst g")
    case (Some s)
    then show ?thesis unfolding unf by (simp add: cg)
  next
    case None
    show ?thesis
    proof (cases created)
      case (Inl err)
      then show ?thesis unfolding unf by (simp add: None c3)
    next
      case (Inr s)
      obtain ds where ds: "calls (st4 s) = calls st3 @ ds"
        and dsok: "\<forall>e \<in> set ds. \<not> isLookup e \<and> handshakeHost e = None"
        using c4 by blast
      show ?thesis
        unfolding unf using ds dsok by (auto simp: None Inr c3)
    qed
  qed
qed

lemma tunnelTo_dnsCache:
  "dnsCache (snd (tunnelTo lib created ag clock opts host st)) = dnsCache st"
  by (auto simp: tunnelTo_def Let_def case_prod_beta dnsCache_getCachedSocket dnsCache_cacheSocket
      split: option.splits sum.splits)


lemma stubSocksAgent_constructed:
  "SocksProxyAgent_new stubLib socks5URL None = Inr (stubSocksAgent True)
   \<and> SocksProxyAgent_new stubLib socks5hURL None = Inr (stubSocksAgent False)"
  by (simp add: SocksProxyAgent_new_def parseSocksURL_def socks5URL_def socks5hURL_def
      stubSocksAgent_def stubSocksProxy_def stubLib_def replace_colon_def parseInt10_def
      digit_of_def Let_def)

lemma resolveHost_no_lookup:
  "\<not> shouldLookup ag \<Longrightarrow> resolveHost lookupFn ag clock host st = (Inr host, st)"
  by (simp add: resolveHost_def)

lemma resolveHost_miss:
  assumes "shouldLookup ag"
    and "enableDNSCache ag \<longrightarrow>
         (\<forall>e. jsmap_get host (dnsCache st) = Some e \<longrightarrow>
              \<not> t_check clock - dns_timestamp e < DNS_CACHE_TTL)"
  shows "fst (resolveHost lookupFn ag clock host st) = lookupFn host
       \<and> calls (snd (resolveHost lookupFn ag clock host st)) = calls st @ [Lookup host]
       \<and> dnsCache (snd (resolveHost lookupFn ag clock host st))
           = (case lookupFn host of
                Inl err \<Rightarrow> dnsCache st
              | Inr res \<Rightarrow>
                  if enableDNSCache ag
                  then jsmap_set host \<lparr>dns_address = res, dns_timestamp = t_store clock\<rparr> (dnsCache st)
                  else dnsCache st)"
  using assms by (auto simp: resolveHost_def Let_def split: option.splits sum.splits)

lemma resolveHost_hit:
  assumes "shouldLookup ag" and "enableDNSCache ag"
    and "jsmap_get host (dnsCache st) = Some e"
    and "t_check clock - dns_timestamp e < DNS_CACHE_TTL"
  shows "resolveHost lookupFn ag clock host st = (Inr (dns_address e), st)"
  using assms by (simp add: resolveHost_def)

lemma socks_connect_unfold:
  assumes "opt_host opts = Some host" and "host \<noteq> []"
  shows "socks_connect lib lookupFn created ag clock opts st =
         (case fst (resolveHost lookupFn ag clock host st) of
            Inl err \<Rightarrow> (Inl err, snd (resolveHost lookupFn ag clock host st))
          | Inr h \<Rightarrow> tunnelTo lib created ag clock opts h
                       (snd (resolveHost lookupFn ag clock host st)))"
  using assms by (simp add: socks_connect_def split: prod.splits sum.splits)

lemma resolveHost_calls:
  "\<exists>pre. calls (snd (resolveHost lookupFn ag clock host st)) = calls st @ pre"
  by (auto simp: resolveHost_def Let_def split: option.splits sum.splits)

lemma socks_connect_calls:
  assumes "opt_host opts = Some host" and "host \<noteq> []"
  shows "\<exists>tail. newCalls st (snd (socks_connect lib lookupFn created ag clock opts st))
               = newCalls st (snd (resolveHost lookupFn ag clock host st)) @ tail
           \<and> (\<forall>e \<in> set tail. \<not> isLookup e
                  \<and> (\<forall>d. handshakeHost e = Some d \<longrightarrow>
                         fst (resolveHost lookupFn ag clock host st) = Inr d))"
proof -
  obtain pre where pre: "calls (snd (resolveHost lookupFn ag clock host st)) = calls st @ pre"
    using resolveHost_calls by blast
  show ?thesis
  proof (cases "fst (resolveHost lookupFn ag clock host st)")
    case (Inl err)
    then show ?thesis
      by (simp add: socks_connect_unfold [OF assms])
  next
    case (Inr h)
    obtain tail where tail: "calls (snd (tunnelTo lib created ag clock opts h
                       (snd (resolveHost lookupFn ag clock host st))))
                 = calls (snd (resolveHost lookupFn ag clock host st)) @ tail"
      and ok: "\<forall>e \<in> set tail. \<not> isLookup e \<and> (handshakeHost e = None \<or> handshakeHost e = Some h)"
      using tunnelTo_calls by blast
    have "newCalls st (snd (socks_connect lib lookupFn created ag clock opts st))
          = newCalls st (snd (resolveHost lookupFn ag clock host st)) @ tail"
      by (simp add: socks_connect_unfold [OF assms] Inr tail newCalls_def pre)
    then show ?thesis using ok Inr by auto
  qed
qed

lemma socks_connect_dnsCache:
  assumes "opt_host opts = Some host" and "host \<noteq> []"
  shows "dnsCache (snd (socks_connect lib lookupFn created ag clock opts st))
         = dnsCache (snd (resolveHost lookupFn ag clock host st))"
  by (simp add: socks_connect_unfold [OF assms] tunnelTo_dnsCache split: sum.splits)

lemma socks_connect_lookups:
  assumes "opt_host opts = Some host" and "host \<noteq> []"
  shows "filter isLookup (calls (snd (socks_connect lib lookupFn created ag clock opts st)))
         = filter isLookup (calls (snd (resolveHost lookupFn ag clock host st)))"
proof (cases "fst (resolveHost lookupFn ag clock host st)")
  case (Inl err)
  then show ?thesis by (simp add: socks_connect_unfold [OF assms])
next
  case (Inr h)
  obtain tail where tail: "calls (snd (tunnelTo lib created ag clock opts h
                       (snd (resolveHost lookupFn ag clock host st))))
                 = calls (snd (resolveHost lookupFn ag clock host st)) @ tail"
      and ok: "\<forall>e \<in> set tail. \<not> isLookup e \<and> (handshakeHost e = None \<or> handshakeHost e = Some h)"
    using tunnelTo_calls by blast
  have "filter isLookup tail = []" using ok by (simp add: filter_empty_conv)
  then show ?thesis by (simp add: socks_connect_unfold [OF assms] Inr tail)
qed


text \<open>
  C6. With client-side resolution required and the DNS cache enabled, a lookup of a host
  that has no unexpired entry calls the resolver once and stores its answer with the time
  of the call-back. A second lookup of the same host within the TTL is served from the
  cache: the two lookups together call the resolver exactly once. A lookup at or after the
  TTL is a miss: it calls the resolver again and stores the new answer.
\<close>

theorem dns_cache_one_resolver_call_within_ttl:
  fixes st :: Socks and ag :: SocksProxyAgent and opts :: AgentConnectOpts and lib :: Lib
    and lookupFn lookupFnB :: "string \<Rightarrow> error + string" and clockA clockB :: Clock
    and createdA createdB :: "error + socket" and host addr :: string and stA stB :: Socks
  assumes look: "shouldLookup ag" and dns: "enableDNSCache ag"
    and host: "opt_host opts = Some host" "host \<noteq> []"
    and ok: "lookupFn host = Inr addr"
    and cold: "\<forall>e. jsmap_get host (dnsCache st) = Some e \<longrightarrow>
                   DNS_CACHE_TTL \<le> t_check clockA - dns_timestamp e"
  defines "stA \<equiv> snd (socks_connect lib lookupFn createdA ag clockA opts st)"
    and "stB \<equiv> snd (socks_connect lib lookupFnB createdB ag clockB opts stA)"
  shows "filter isLookup (calls stA) = filter isLookup (calls st) @ [Lookup host]
       \<and> jsmap_get host (dnsCache stA) = Some \<lparr>dns_address = addr, dns_timestamp = t_store clockA\<rparr>
       \<and> (t_check clockB - t_store clockA < DNS_CACHE_TTL \<longrightarrow>
            filter isLookup (calls stB) = filter isLookup (calls st) @ [Lookup host]
            \<and> resolveHost lookupFnB ag clockB host stA = (Inr addr, stA))
       \<and> (DNS_CACHE_TTL \<le> t_check clockB - t_store clockA \<longrightarrow>
            filter isLookup (calls stB) = filter isLookup (calls st) @ [Lookup host, Lookup host]
            \<and> (\<forall>addrB. lookupFnB host = Inr addrB \<longrightarrow>
                  jsmap_get host (dnsCache stB)
                  = Some \<lparr>dns_address = addrB, dns_timestamp = t_store clockB\<rparr>))"
proof -
  have missA: "enableDNSCache ag \<longrightarrow>
         (\<forall>e. jsmap_get host (dnsCache st) = Some e \<longrightarrow>
              \<not> t_check clockA - dns_timestamp e < DNS_CACHE_TTL)"
    using cold by auto
  note rA = resolveHost_miss [OF look missA, of lookupFn]
  have callsA: "filter isLookup (calls stA) = filter isLookup (calls st) @ [Lookup host]"
    unfolding stA_def by (simp add: socks_connect_lookups [OF host] rA)
  have cacheA: "dnsCache stA
                = jsmap_set host \<lparr>dns_address = addr, dns_timestamp = t_store clockA\<rparr> (dnsCache st)"
    unfolding stA_def by (simp add: socks_connect_dnsCache [OF host] rA ok dns)
  have entryA: "jsmap_get host (dnsCache stA)
                = Some \<lparr>dns_address = addr, dns_timestamp = t_store clockA\<rparr>"
    by (simp add: cacheA jsmap_get_set_same)
  have within: "filter isLookup (calls stB) = filter isLookup (calls st) @ [Lookup host]
            \<and> resolveHost lookupFnB ag clockB host stA = (Inr addr, stA)"
    if "t_check clockB - t_store clockA < DNS_CACHE_TTL"
  proof -
    have hit: "resolveHost lookupFnB ag clockB host stA = (Inr addr, stA)"
      using resolveHost_hit [OF look dns entryA, of clockB lookupFnB] that by simp
    show ?thesis
      unfolding stB_def by (simp add: socks_connect_lookups [OF host] hit callsA)
  qed
  have after: "filter isLookup (calls stB) = filter isLookup (calls st) @ [Lookup host, Lookup host]
            \<and> (\<forall>addrB. lookupFnB host = Inr addrB \<longrightarrow>
                  jsmap_get host (dnsCache stB)
                  = Some \<lparr>dns_address = addrB, dns_timestamp = t_store clockB\<rparr>)"
    if "DNS_CACHE_TTL \<le> t_check clockB - t_store clockA"
  proof -
    have missB: "enableDNSCache ag \<longrightarrow>
         (\<forall>e. jsmap_get host (dnsCache stA) = Some e \<longrightarrow>
              \<not> t_check clockB - dns_timestamp e < DNS_CACHE_TTL)"
      using that entryA by auto
    note rB = resolveHost_miss [OF look missB, of lookupFnB]
    have a: "filter isLookup (calls stB) = filter isLookup (calls st) @ [Lookup host, Lookup host]"
      unfolding stB_def by (simp add: socks_connect_lookups [OF host] rB callsA)
    have b: "jsmap_get host (dnsCache stB)
                  = Some \<lparr>dns_address = addrB, dns_timestamp = t_store clockB\<rparr>"
      if "lookupFnB host = Inr addrB" for addrB
      unfolding stB_def
      by (simp add: socks_connect_dnsCache [OF host] rB that dns jsmap_get_set_same)
    show ?thesis using a b by blast
  qed
  show ?thesis using callsA entryA within after by blast
qed

theorem dns_cache_one_resolver_call_within_ttl_witness:
  "shouldLookup (stubSocksAgent True) \<and> enableDNSCache (stubSocksAgent True)
   \<and> opt_host stubOpts = Some ''api.example.com''
   \<and> stubResolver ''api.example.com'' = Inr ''93.184.216.34''
   \<and> jsmap_get ''api.example.com'' (dnsCache socksInit) = None
   \<and> t_check (clockAt 60000) - t_store (clockAt 1000) < DNS_CACHE_TTL
   \<and> filter isLookup
         (calls (snd (socks_connect stubLib stubResolver (Inr 7) (stubSocksAgent True)
                        (clockAt 60000) stubOpts
                   (snd (socks_connect stubLib stubResolver (Inr 3) (stubSocksAgent True)
                           (clockAt 1000) stubOpts socksInit)))))
       = [Lookup ''api.example.com'']"
proof -
  have h1: "shouldLookup (stubSocksAgent True)" by (simp add: stubSocksAgent_def)
  have h2: "enableDNSCache (stubSocksAgent True)" by (simp add: stubSocksAgent_def)
  have h3: "opt_host stubOpts = Some ''api.example.com''" by (simp add: stubOpts_def)
  have h4: "''api.example.com'' \<noteq> []" by simp
  have h5: "stubResolver ''api.example.com'' = Inr ''93.184.216.34''"
    by (simp add: stubResolver_def)
  have h6: "jsmap_get ''api.example.com'' (dnsCache socksInit) = None"
    by (simp add: socksInit_def)
  have h7: "\<forall>e. jsmap_get ''api.example.com'' (dnsCache socksInit) = Some e \<longrightarrow>
                   DNS_CACHE_TTL \<le> t_check (clockAt 1000) - dns_timestamp e"
    by (simp add: h6)
  have h8: "t_check (clockAt 60000) - t_store (clockAt 1000) < DNS_CACHE_TTL"
    by (simp add: clockAt_def DNS_CACHE_TTL_def)
  have h9: "calls socksInit = []" by (simp add: socksInit_def)
  note T = dns_cache_one_resolver_call_within_ttl [where lookupFn = stubResolver
      and host = "''api.example.com''" and lib = stubLib and createdA = "Inr 3"
      and clockB = "clockAt 60000" and lookupFnB = stubResolver and createdB = "Inr 7",
      OF h1 h2 h3 h4 h5 h7]
  from T h8 have "filter isLookup
         (calls (snd (socks_connect stubLib stubResolver (Inr 7) (stubSocksAgent True)
                        (clockAt 60000) stubOpts
                   (snd (socks_connect stubLib stubResolver (Inr 3) (stubSocksAgent True)
                           (clockAt 1000) stubOpts socksInit)))))
       = filter isLookup (calls socksInit) @ [Lookup ''api.example.com'']"
    by blast
  then have c: "filter isLookup
         (calls (snd (socks_connect stubLib stubResolver (Inr 7) (stubSocksAgent True)
                        (clockAt 60000) stubOpts
                   (snd (socks_connect stubLib stubResolver (Inr 3) (stubSocksAgent True)
                           (clockAt 1000) stubOpts socksInit)))))
       = [Lookup ''api.example.com'']"
    by (simp add: h9)
  from h1 h2 h3 h5 h6 h8 c show ?thesis by (intro conjI)
qed


lemma parseSocksURL_lookup:
  "url_protocol url = ''socks4:'' \<or> url_protocol url = ''socks5:'' \<Longrightarrow>
   \<exists>p. parseSocksURL lib url = Inr (True, p)"
  by (auto simp: parseSocksURL_def replace_colon_def Let_def)

lemma parseSocksURL_no_lookup:
  "url_protocol url = ''socks4a:'' \<or> url_protocol url = ''socks5h:'' \<or> url_protocol url = ''socks:''
   \<Longrightarrow> \<exists>p. parseSocksURL lib url = Inr (False, p)"
  by (auto simp: parseSocksURL_def replace_colon_def Let_def)

lemma parseSocksURL_unknown:
  "replace_colon (url_protocol url)
     \<notin> set [''socks4'', ''socks4a'', ''socks5'', ''socks'', ''socks5h'']
   \<Longrightarrow> \<exists>msg. parseSocksURL lib url = Inl (TypeError msg)"
  by (simp add: parseSocksURL_def Let_def)

lemma SocksProxyAgent_new_lookup:
  "SocksProxyAgent_new lib url ao = Inr a \<Longrightarrow>
   \<exists>p. parseSocksURL lib url = Inr (shouldLookup a, p)"
  by (auto simp: SocksProxyAgent_new_def split: sum.splits prod.splits)

lemma resolveHost_cases:
  assumes "shouldLookup ag"
  shows "(fst (resolveHost lookupFn ag clock host st) = lookupFn host
          \<and> newCalls st (snd (resolveHost lookupFn ag clock host st)) = [Lookup host])
       \<or> (enableDNSCache ag
          \<and> (\<exists>e. jsmap_get host (dnsCache st) = Some e
                 \<and> t_check clock - dns_timestamp e < DNS_CACHE_TTL
                 \<and> resolveHost lookupFn ag clock host st = (Inr (dns_address e), st)))"
proof (cases "enableDNSCache ag \<and> (\<exists>e. jsmap_get host (dnsCache st) = Some e
                 \<and> t_check clock - dns_timestamp e < DNS_CACHE_TTL)")
  case True
  then obtain e where e: "jsmap_get host (dnsCache st) = Some e"
     "t_check clock - dns_timestamp e < DNS_CACHE_TTL" by blast
  from True have dns: "enableDNSCache ag" by simp
  show ?thesis
    using resolveHost_hit [OF assms dns e, of lookupFn] dns e by blast
next
  case False
  then have miss: "enableDNSCache ag \<longrightarrow>
         (\<forall>e. jsmap_get host (dnsCache st) = Some e \<longrightarrow>
              \<not> t_check clock - dns_timestamp e < DNS_CACHE_TTL)" by blast
  show ?thesis
    using resolveHost_miss [OF assms miss, of lookupFn] by (simp add: newCalls_def)
qed

text \<open>
  The parser and \<open>connect\<close>: \<open>socks4\<close> and \<open>socks5\<close> set \<open>lookup\<close>, \<open>socks4a\<close>, \<open>socks5h\<close>
  and bare \<open>socks\<close> do not, any other scheme raises a \<open>TypeError\<close> at once, and an agent
  that the constructor returns has the parser's flag as its \<open>shouldLookup\<close>. Without
  \<open>shouldLookup\<close>, \<open>connect\<close> calls no resolver and every handshake it starts has the
  literal host as destination. With it, the resolution (the resolver, or an unexpired cache
  entry) comes first, and every handshake has the resolved address as destination.
\<close>

theorem socks_scheme_decides_client_side_resolution:
  fixes st st' :: Socks and ag :: SocksProxyAgent and opts :: AgentConnectOpts and lib :: Lib
    and lookupFn :: "string \<Rightarrow> error + string" and clock :: Clock
    and created :: "error + socket" and host :: string and url :: URL
    and agentOpts :: "SocksProxyAgentOptions option"
  assumes host: "opt_host opts = Some host" "host \<noteq> []"
  defines "st' \<equiv> snd (socks_connect lib lookupFn created ag clock opts st)"
  shows "(url_protocol url = ''socks4:'' \<or> url_protocol url = ''socks5:'' \<longrightarrow>
            (\<exists>p. parseSocksURL lib url = Inr (True, p)))
       \<and> (url_protocol url = ''socks4a:'' \<or> url_protocol url = ''socks5h:''
            \<or> url_protocol url = ''socks:'' \<longrightarrow>
            (\<exists>p. parseSocksURL lib url = Inr (False, p)))
       \<and> (replace_colon (url_protocol url)
              \<notin> set [''socks4'', ''socks4a'', ''socks5'', ''socks'', ''socks5h''] \<longrightarrow>
            (\<exists>msg. parseSocksURL lib url = Inl (TypeError msg)))
       \<and> (\<forall>a. SocksProxyAgent_new lib url agentOpts = Inr a \<longrightarrow>
            (\<exists>p. parseSocksURL lib url = Inr (shouldLookup a, p)))
       \<and> (\<not> shouldLookup ag \<longrightarrow>
            (\<forall>e \<in> set (newCalls st st').
                \<not> isLookup e \<and> (handshakeHost e = None \<or> handshakeHost e = Some host)))
       \<and> (shouldLookup ag \<longrightarrow>
            (\<exists>tail. newCalls st st'
                      = newCalls st (snd (resolveHost lookupFn ag clock host st)) @ tail
                  \<and> (\<forall>e \<in> set tail. \<not> isLookup e
                        \<and> (\<forall>d. handshakeHost e = Some d \<longrightarrow>
                               fst (resolveHost lookupFn ag clock host st) = Inr d)))
            \<and> ((fst (resolveHost lookupFn ag clock host st) = lookupFn host
                 \<and> newCalls st (snd (resolveHost lookupFn ag clock host st)) = [Lookup host])
               \<or> (enableDNSCache ag
                  \<and> (\<exists>e. jsmap_get host (dnsCache st) = Some e
                         \<and> t_check clock - dns_timestamp e < DNS_CACHE_TTL
                         \<and> resolveHost lookupFn ag clock host st = (Inr (dns_address e), st)))))"
proof -
  have literal: "\<forall>e \<in> set (newCalls st st').
                \<not> isLookup e \<and> (handshakeHost e = None \<or> handshakeHost e = Some host)"
    if no: "\<not> shouldLookup ag"
  proof -
    obtain tail where tail: "newCalls st st'
                      = newCalls st (snd (resolveHost lookupFn ag clock host st)) @ tail"
      and ok: "\<forall>e \<in> set tail. \<not> isLookup e
                        \<and> (\<forall>d. handshakeHost e = Some d \<longrightarrow>
                               fst (resolveHost lookupFn ag clock host st) = Inr d)"
      unfolding st'_def using socks_connect_calls [OF host] by blast
    have "newCalls st st' = tail"
      using tail by (simp add: resolveHost_no_lookup [OF no] newCalls_def)
    moreover have "fst (resolveHost lookupFn ag clock host st) = Inr host"
      by (simp add: resolveHost_no_lookup [OF no])
    ultimately show ?thesis using ok by (metis option.exhaust sum.inject(2))
  qed
  have resolved: "\<exists>tail. newCalls st st'
                      = newCalls st (snd (resolveHost lookupFn ag clock host st)) @ tail
                  \<and> (\<forall>e \<in> set tail. \<not> isLookup e
                        \<and> (\<forall>d. handshakeHost e = Some d \<longrightarrow>
                               fst (resolveHost lookupFn ag clock host st) = Inr d))"
    unfolding st'_def using socks_connect_calls [OF host] by blast
  show ?thesis
    using parseSocksURL_lookup [of url lib] parseSocksURL_no_lookup [of url lib]
      parseSocksURL_unknown [of url lib] SocksProxyAgent_new_lookup [of lib url agentOpts]
      literal resolved resolveHost_cases [of ag lookupFn clock host st]
    by (intro conjI impI allI) blast+
qed

theorem socks_scheme_decides_client_side_resolution_witness:
  "opt_host stubOpts = Some ''api.example.com''
   \<and> url_protocol socks5hURL = ''socks5h:''
   \<and> (\<exists>p. parseSocksURL stubLib socks5hURL = Inr (False, p))
   \<and> (\<exists>p. parseSocksURL stubLib socks5URL = Inr (True, p))
   \<and> newCalls socksInit
         (snd (socks_connect stubLib stubResolver (Inr 3) (stubSocksAgent False) (clockAt 1000)
                 stubOpts socksInit))
       = [CreateConnection stubSocksProxy ''api.example.com'' 443,
          TlsConnect 3 (Some ''api.example.com'')]
   \<and> newCalls socksInit
         (snd (socks_connect stubLib stubResolver (Inr 3) (stubSocksAgent True) (clockAt 1000)
                 stubOpts socksInit))
       = [Lookup ''api.example.com'', CreateConnection stubSocksProxy ''93.184.216.34'' 443,
          TlsConnect 3 (Some ''api.example.com'')]"
proof -
  have h1: "opt_host stubOpts = Some ''api.example.com''" by (simp add: stubOpts_def)
  have h2: "''api.example.com'' \<noteq> []" by simp
  have h3: "url_protocol socks5hURL = ''socks5h:''" by (simp add: socks5hURL_def)
  have h4: "url_protocol socks5URL = ''socks5:''" by (simp add: socks5URL_def)
  note T = socks_scheme_decides_client_side_resolution [OF h1 h2]
  have a: "\<exists>p. parseSocksURL stubLib socks5hURL = Inr (False, p)"
    using T [of socks5hURL stubLib] h3 by blast
  have b: "\<exists>p. parseSocksURL stubLib socks5URL = Inr (True, p)"
    using T [of socks5URL stubLib] h4 by blast
  have c: "newCalls socksInit
         (snd (socks_connect stubLib stubResolver (Inr 3) (stubSocksAgent False) (clockAt 1000)
                 stubOpts socksInit))
       = [CreateConnection stubSocksProxy ''api.example.com'' 443,
          TlsConnect 3 (Some ''api.example.com'')]"
    by (simp add: socks_connect_def resolveHost_def tunnelTo_def stubOpts_def stubSocksAgent_def
        socksInit_def newCalls_def Let_def setServernameFromNonIpHost_def stubLib_def)
  have d: "newCalls socksInit
         (snd (socks_connect stubLib stubResolver (Inr 3) (stubSocksAgent True) (clockAt 1000)
                 stubOpts socksInit))
       = [Lookup ''api.example.com'', CreateConnection stubSocksProxy ''93.184.216.34'' 443,
          TlsConnect 3 (Some ''api.example.com'')]"
    by (simp add: socks_connect_def resolveHost_def tunnelTo_def stubOpts_def stubSocksAgent_def
        socksInit_def newCalls_def Let_def setServernameFromNonIpHost_def stubLib_def
        stubResolver_def clockAt_def)
  from h1 h3 a b c d show ?thesis by (intro conjI)
qed

text \<open>
  The constructor succeeds on each of the five schemes, with the flag of the scheme, and
  fails with a \<open>TypeError\<close> on any other. The static \<open>getAgent\<close> builds its agent with the
  constructor when pooling is off or the pool has no entry under the key; on a hit it
  returns the pooled agent, whatever the scheme of the URL it was given.
\<close>

lemma getAgent_hit:
  assumes "parseSocksURL lib url = Inr (lookup, proxy)"
    and "case opts of None \<Rightarrow> True | Some o' \<Rightarrow> o_enablePooling o' \<noteq> Some False"
    and "jsmap_get (poolKey proxy) agentPool = Some agent"
  shows "getAgent lib url opts agentPool = (Inr agent, agentPool)"
  using assms by (simp add: getAgent_def)

lemma getAgent_unpooled:
  assumes "parseSocksURL lib url = Inr (lookup, proxy)"
    and "\<not> (case opts of None \<Rightarrow> True | Some o' \<Rightarrow> o_enablePooling o' \<noteq> Some False)"
  shows "getAgent lib url opts agentPool = (SocksProxyAgent_new lib url opts, agentPool)"
  using assms by (simp add: getAgent_def)

lemma SocksProxyAgent_new_scheme:
  "(url_protocol url = ''socks4:'' \<or> url_protocol url = ''socks5:'' \<longrightarrow>
      (\<exists>a. SocksProxyAgent_new lib url opts = Inr a \<and> shouldLookup a))
   \<and> (url_protocol url = ''socks4a:'' \<or> url_protocol url = ''socks5h:''
        \<or> url_protocol url = ''socks:'' \<longrightarrow>
      (\<exists>a. SocksProxyAgent_new lib url opts = Inr a \<and> \<not> shouldLookup a))
   \<and> (replace_colon (url_protocol url)
          \<notin> set [''socks4'', ''socks4a'', ''socks5'', ''socks'', ''socks5h''] \<longrightarrow>
      (\<exists>msg. SocksProxyAgent_new lib url opts = Inl (TypeError msg)))"
  using parseSocksURL_lookup [of url lib] parseSocksURL_no_lookup [of url lib]
    parseSocksURL_unknown [of url lib]
  by (auto simp: SocksProxyAgent_new_def)

text \<open>
  C5. For every SOCKS proxy URL the scheme decides client-side resolution: \<open>socks4\<close> and
  \<open>socks5\<close> resolve the destination before the handshake, \<open>socks4a\<close>, \<open>socks5h\<close> and bare
  \<open>socks\<close> pass the literal hostname to the handshake. The code breaks this on the pooled path:
  \<open>getAgent\<close> keys the pool by host, port and SOCKS version, which \<open>socks5\<close> and \<open>socks5h\<close>
  share. After \<open>getAgent\<close> of \<open>socks5://proxy.local:1080\<close>, \<open>getAgent\<close> of
  \<open>socks5h://proxy.local:1080\<close> returns the pooled \<open>socks5\<close> agent, where the parser says no
  lookup and the constructor would build an agent without it; \<open>connect\<close> on the agent returned
  calls the resolver and starts the handshake with the resolved address.
\<close>

theorem pooled_agent_keeps_first_scheme:
  "parseSocksURL stubLib socks5hURL = Inr (False, stubSocksProxy)
   \<and> SocksProxyAgent_new stubLib socks5hURL None = Inr (stubSocksAgent False)
   \<and> getAgent stubLib socks5URL None []
       = (Inr (stubSocksAgent True), [(''proxy.local:1080:5'', stubSocksAgent True)])
   \<and> getAgent stubLib socks5hURL None [(''proxy.local:1080:5'', stubSocksAgent True)]
       = (Inr (stubSocksAgent True), [(''proxy.local:1080:5'', stubSocksAgent True)])
   \<and> shouldLookup (stubSocksAgent True)
   \<and> newCalls socksInit
         (snd (socks_connect stubLib stubResolver (Inr 3) (stubSocksAgent True) (clockAt 1000)
                 stubOpts socksInit))
       = [Lookup ''api.example.com'', CreateConnection stubSocksProxy ''93.184.216.34'' 443,
          TlsConnect 3 (Some ''api.example.com'')]"
proof -
  have p: "parseSocksURL stubLib socks5hURL = Inr (False, stubSocksProxy)"
    by (simp add: parseSocksURL_def socks5hURL_def socks5URL_def stubSocksProxy_def stubLib_def
        replace_colon_def parseInt10_def digit_of_def Let_def)
  have q: "parseSocksURL stubLib socks5URL = Inr (True, stubSocksProxy)"
    by (simp add: parseSocksURL_def socks5URL_def stubSocksProxy_def stubLib_def
        replace_colon_def parseInt10_def digit_of_def Let_def)
  have k: "poolKey stubSocksProxy = ''proxy.local:1080:5''"
    by (simp add: poolKey_def stubSocksProxy_def string_of_nat.simps digit_char_def)
  have n: "SocksProxyAgent_new stubLib socks5hURL None = Inr (stubSocksAgent False)"
    by (simp add: SocksProxyAgent_new_def p stubSocksAgent_def)
  have m: "SocksProxyAgent_new stubLib socks5URL None = Inr (stubSocksAgent True)"
    by (simp add: SocksProxyAgent_new_def q stubSocksAgent_def)
  have a: "getAgent stubLib socks5URL None []
       = (Inr (stubSocksAgent True), [(''proxy.local:1080:5'', stubSocksAgent True)])"
    by (simp add: getAgent_def q k m evictThenSet_def jsmap_size_def MAX_POOL_SIZE_def)
  have b: "getAgent stubLib socks5hURL None [(''proxy.local:1080:5'', stubSocksAgent True)]
       = (Inr (stubSocksAgent True), [(''proxy.local:1080:5'', stubSocksAgent True)])"
    by (simp add: getAgent_def p k)
  have c: "shouldLookup (stubSocksAgent True)" by (simp add: stubSocksAgent_def)
  have d: "newCalls socksInit
         (snd (socks_connect stubLib stubResolver (Inr 3) (stubSocksAgent True) (clockAt 1000)
                 stubOpts socksInit))
       = [Lookup ''api.example.com'', CreateConnection stubSocksProxy ''93.184.216.34'' 443,
          TlsConnect 3 (Some ''api.example.com'')]"
    by (simp add: socks_connect_def resolveHost_def tunnelTo_def stubOpts_def stubSocksAgent_def
        socksInit_def newCalls_def Let_def setServernameFromNonIpHost_def stubLib_def
        stubResolver_def clockAt_def)
  from p n a b c d show ?thesis by (intro conjI)
qed

section \<open>Properties of the dispatcher\<close>



lemma jsmap_has_get: "jsmap_has k m \<longleftrightarrow> jsmap_get k m \<noteq> None"
  by (induction m) auto













text \<open>
  \<open>destroy()\<close> calls \<open>destroy()\<close> on every cached agent in its \<open>forEach\<close>, and then
  \<open>cache.clear()\<close> hands every cached agent to the \<open>dispose\<close> callback, which calls
  \<open>destroy()\<close> on it again.
\<close>

lemma count_list_TunnelAgent:
  "count_list (map TunnelAgent xs) (TunnelAgent n) = count_list xs n"
  by (induction xs) auto

lemma count_list_TunnelAgent_comp:
  "count_list (map (TunnelAgent \<circ> f) xs) (TunnelAgent n) = count_list (map f xs) n"
  by (induction xs) auto

lemma count_list_append2: "count_list (xs @ ys) a = count_list xs a + count_list ys a"
  by (induction xs) auto

lemma count_list_rev2: "count_list (rev xs) a = count_list xs a"
  by (induction xs) (auto simp: count_list_append2)

lemma dispatch_destroy_count:
  "destroyCount (TunnelAgent n) (dispatch_destroy pa)
   = destroyCount (TunnelAgent n) pa + 2 * count_list (lru_forEach (pa_cache pa)) n"
  by (simp add: dispatch_destroy_def destroyCount_def lru_forEach_def lru_clear_def Let_def
      count_list_append2 count_list_TunnelAgent count_list_TunnelAgent_comp count_list_rev2
      rev_map [symmetric])

lemma lru_set_evicts:
  assumes "jsmap_get k (lru_entries c) = None" and "lru_entries c \<noteq> []"
    and "lru_max c \<le> length (lru_entries c)"
  shows "fst (lru_set k v c) = [snd (last (lru_entries c))]"
  using assms by (simp add: lru_set_def)

text \<open>
  C4. Destroying the dispatcher destroys every cached agent exactly once, and an agent
  evicted from the bounded LRU cache is destroyed. The eviction part holds (the evicted
  value goes to \<open>dispose\<close>); the first part does not: after one request through a proxy
  the cache holds agent 0, not yet destroyed, and \<open>destroy()\<close> of the dispatcher calls its
  \<open>destroy()\<close> twice.
\<close>

theorem dispatcher_destroy_destroys_cached_agent_twice:
  "fst (dispatch_connect stubLib stubProxyResolver True stubRequest ProxyAgent_new)
     = Inr (TunnelAgent 0)
   \<and> lru_forEach (pa_cache (snd (dispatch_connect stubLib stubProxyResolver True stubRequest
                                   ProxyAgent_new))) = [0]
   \<and> destroyCount (TunnelAgent 0)
         (snd (dispatch_connect stubLib stubProxyResolver True stubRequest ProxyAgent_new)) = 0
   \<and> destroyCount (TunnelAgent 0)
         (dispatch_destroy
            (snd (dispatch_connect stubLib stubProxyResolver True stubRequest ProxyAgent_new)))
       = 2"
  by (simp add: dispatch_connect_def destinationURL_def resolveProxy_def agentFor_def
      lru_get_def lru_set_def lru_clear_def lru_forEach_def stubLib_def stubURL_def
      stubRequest_def stubProxyResolver_def isValidProtocol_def VALID_PROTOCOLS_def
      proxies_def replace_colon_def truthy_def or_empty_def string_of_nat.simps digit_char_def
      ProxyAgent_new_def dispatch_destroy_def destroyCount_def jsmap_size_def
      maxProxyCacheSize_def Let_def)

section \<open>Properties of the forward-HTTP tunnel\<close>

lemma jsmap_get_set_other: "k \<noteq> k' \<Longrightarrow> jsmap_get k' (jsmap_set k v m) = jsmap_get k' m"
  by (induction m) auto

lemma getHeader_setHeader_same: "getHeader n (setHeader n v req) = Some v"
  by (simp add: getHeader_def setHeader_def jsmap_get_set_same)

lemma getHeader_setHeader_other:
  "toLowerCase n \<noteq> toLowerCase m \<Longrightarrow> getHeader n (setHeader m v req) = getHeader n req"
  by (simp add: getHeader_def setHeader_def jsmap_get_set_other)

lemma getHeader_setHeaders_other:
  "toLowerCase n \<notin> set (map (\<lambda>p. toLowerCase (fst p)) ps) \<Longrightarrow>
   getHeader n (setHeaders ps req) = getHeader n req"
  by (induction ps arbitrary: req) (auto simp: getHeader_setHeader_other)

lemma getHeader_setHeaders:
  assumes "distinct (map (\<lambda>p. toLowerCase (fst p)) ps)" and "(n, v) \<in> set ps" and "v \<noteq> []"
  shows "getHeader n (setHeaders ps req) = Some v"
  using assms
proof (induction ps arbitrary: req)
  case Nil
  then show ?case by simp
next
  case (Cons p ps)
  show ?case
  proof (cases "p = (n, v)")
    case True
    then have "toLowerCase n \<notin> set (map (\<lambda>p. toLowerCase (fst p)) ps)"
      using Cons.prems(1) by auto
    then show ?thesis
      using True Cons.prems(3)
      by (simp add: getHeader_setHeaders_other getHeader_setHeader_same)
  next
    case False
    then have "(n, v) \<in> set ps" using Cons.prems(2) by simp
    moreover have "distinct (map (\<lambda>p. toLowerCase (fst p)) ps)" using Cons.prems(1) by simp
    ultimately show ?thesis using Cons.IH Cons.prems(3) by simp
  qed
qed

lemma getHeader_path: "getHeader n (req\<lparr>req_path := p\<rparr>) = getHeader n req"
  by (simp add: getHeader_def)

lemma setRequestProps_headers:
  "\<exists>p. fst (setRequestProps lib ag opts req urlCache)
       = setHeaders (proxyRequestHeaders ag) (req\<lparr>req_path := p\<rparr>)"
  unfolding setRequestProps_def Let_def case_prod_beta fst_conv
  by (rule exI) (rule refl)

text \<open>
  C8 (as amended). For every forward-HTTP proxied request the proxy headers are merged in
  this way: a configured \<open>Proxy-Connection\<close> header of exactly that spelling, when not
  empty, is kept, and the default is used otherwise; the \<open>Proxy-Authorization\<close> derived
  from the credentials of the proxy URL, when there are credentials, replaces a configured
  header of that name; every other configured header is kept as it is. When no two names
  of the merged set differ only in letter case, each of its non-empty headers is the value
  the request has under that name afterwards.
\<close>

theorem proxy_headers_merge:
  fixes ag :: HttpProxyAgent and lib :: Lib and opts :: AgentConnectOpts and req :: ClientRequest
    and urlCache :: "(string, URL) jsmap" and hs H :: headers and n :: string
  defines "hs \<equiv> providedHeaders (hp_proxyHeaders ag)"
    and "H \<equiv> proxyRequestHeaders ag"
  shows "jsmap_get ''Proxy-Connection'' H
           = (if truthy (jsmap_get ''Proxy-Connection'' hs) then jsmap_get ''Proxy-Connection'' hs
              else Some (hp_cachedProxyConnection ag))
       \<and> jsmap_get ''Proxy-Authorization'' H
           = (if truthy (hp_cachedAuthHeader ag) then hp_cachedAuthHeader ag
              else jsmap_get ''Proxy-Authorization'' hs)
       \<and> (n \<noteq> ''Proxy-Connection'' \<and> n \<noteq> ''Proxy-Authorization'' \<longrightarrow>
            jsmap_get n H = jsmap_get n hs)
       \<and> (distinct (map (\<lambda>p. toLowerCase (fst p)) H) \<longrightarrow>
            (\<forall>v. (n, v) \<in> set H \<longrightarrow> v \<noteq> [] \<longrightarrow>
                 getHeader n (fst (setRequestProps lib ag opts req urlCache)) = Some v))"
proof (intro conjI impI allI)
  show "jsmap_get ''Proxy-Connection'' H
           = (if truthy (jsmap_get ''Proxy-Connection'' hs) then jsmap_get ''Proxy-Connection'' hs
              else Some (hp_cachedProxyConnection ag))"
    unfolding H_def hs_def
    by (simp add: proxyRequestHeaders_def Let_def jsmap_get_set_same jsmap_get_set_other)
  show "jsmap_get ''Proxy-Authorization'' H
           = (if truthy (hp_cachedAuthHeader ag) then hp_cachedAuthHeader ag
              else jsmap_get ''Proxy-Authorization'' hs)"
    unfolding H_def hs_def
    by (auto simp: proxyRequestHeaders_def Let_def jsmap_get_set_same jsmap_get_set_other
        truthy_def or_empty_def split: option.splits)
  show "jsmap_get n H = jsmap_get n hs"
    if "n \<noteq> ''Proxy-Connection'' \<and> n \<noteq> ''Proxy-Authorization''"
  proof -
    have ne: "''Proxy-Connection'' \<noteq> n" "''Proxy-Authorization'' \<noteq> n"
      using that by auto
    show ?thesis
      unfolding H_def hs_def
      by (simp add: proxyRequestHeaders_def Let_def jsmap_get_set_other [OF ne(1)]
          jsmap_get_set_other [OF ne(2)])
  qed
  show "getHeader n (fst (setRequestProps lib ag opts req urlCache)) = Some v"
    if "distinct (map (\<lambda>p. toLowerCase (fst p)) H)" "(n, v) \<in> set H" "v \<noteq> []" for v
  proof -
    obtain p where p: "fst (setRequestProps lib ag opts req urlCache)
       = setHeaders H (req\<lparr>req_path := p\<rparr>)"
      unfolding H_def using setRequestProps_headers by blast
    show ?thesis unfolding p using that by (rule getHeader_setHeaders)
  qed
qed


theorem proxy_headers_merge_witness:
  "jsmap_get ''Proxy-Connection'' (providedHeaders (hp_proxyHeaders exactCaseAgent)) = Some ''close''
   \<and> hp_cachedProxyConnection exactCaseAgent = ''Keep-Alive''
   \<and> jsmap_get ''Proxy-Connection'' (proxyRequestHeaders exactCaseAgent) = Some ''close''
   \<and> proxyRequestHeaders exactCaseAgent
       = [(''Proxy-Connection'', ''close''), (''X-Trace'', ''1''),
          (''Proxy-Authorization'', ''Basic user:pw'')]
   \<and> getHeader ''Proxy-Connection''
         (fst (setRequestProps stubLib exactCaseAgent stubHttpOpts stubClientRequest []))
       = Some ''close''"
proof -
  have hs: "providedHeaders (hp_proxyHeaders exactCaseAgent)
            = [(''Proxy-Connection'', ''close''), (''X-Trace'', ''1'')]"
    by (simp add: exactCaseAgent_def HttpProxyAgent_new_def providedHeaders_def)
  have a: "jsmap_get ''Proxy-Connection'' (providedHeaders (hp_proxyHeaders exactCaseAgent))
           = Some ''close''"
    by (simp add: hs)
  have b: "hp_cachedProxyConnection exactCaseAgent = ''Keep-Alive''"
    by (simp add: exactCaseAgent_def HttpProxyAgent_new_def)
  have H: "proxyRequestHeaders exactCaseAgent
       = [(''Proxy-Connection'', ''close''), (''X-Trace'', ''1''),
          (''Proxy-Authorization'', ''Basic user:pw'')]"
    by (simp add: proxyRequestHeaders_def providedHeaders_def truthy_def or_empty_def Let_def
        exactCaseAgent_def HttpProxyAgent_new_def stubURL_def stubLib_def basicAuth_def)
  have d: "distinct (map (\<lambda>p. toLowerCase (fst p)) (proxyRequestHeaders exactCaseAgent))"
    by (simp add: H toLowerCase_def ascii_lower_def)
  have m: "(''Proxy-Connection'', ''close'') \<in> set (proxyRequestHeaders exactCaseAgent)"
    by (simp add: H)
  have ne: "''close'' \<noteq> []" by simp
  note T = proxy_headers_merge [of exactCaseAgent "''Proxy-Connection''" stubLib stubHttpOpts
      stubClientRequest "[]"]
  have c: "jsmap_get ''Proxy-Connection'' (proxyRequestHeaders exactCaseAgent) = Some ''close''"
    using T a by (simp add: truthy_def)
  have e: "getHeader ''Proxy-Connection''
         (fst (setRequestProps stubLib exactCaseAgent stubHttpOpts stubClientRequest []))
       = Some ''close''"
    using T d m ne by blast
  from a b c H e show ?thesis by (intro conjI)
qed

text \<open>
  Caller-set headers are overwritten in two ways. The test for a configured
  \<open>Proxy-Connection\<close> is an exact property lookup, so with \<open>proxy-connection: close\<close>
  configured the default \<open>Keep-Alive\<close> is added as well and, set later, is the value the
  request ends with. And a configured \<open>Proxy-Authorization\<close> is replaced by the one made
  from the credentials of the proxy URL.
\<close>

theorem proxy_headers_overwrite_counterexample:
  "jsmap_get ''proxy-connection'' (providedHeaders (hp_proxyHeaders lowerCaseAgent)) = Some ''close''
   \<and> getHeader ''proxy-connection''
         (fst (setRequestProps stubLib lowerCaseAgent stubHttpOpts stubClientRequest []))
       = Some ''Keep-Alive''
   \<and> jsmap_get ''Proxy-Authorization'' (providedHeaders (hp_proxyHeaders lowerCaseAgent))
       = Some ''Bearer token''
   \<and> getHeader ''Proxy-Authorization''
         (fst (setRequestProps stubLib lowerCaseAgent stubHttpOpts stubClientRequest []))
       = Some ''Basic user:pw''"
  by (simp add: setRequestProps_def proxyRequestHeaders_def lowerCaseAgent_def
      HttpProxyAgent_new_def providedHeaders_def truthy_def or_empty_def Let_def stubURL_def
      stubLib_def basicAuth_def getHeader_def setHeader_def toLowerCase_def ascii_lower_def
      stubHttpOpts_def stubClientRequest_def string_of_nat.simps digit_char_def
      evictThenSet_def jsmap_size_def URL_CACHE_SIZE_def)

section \<open>Bounds of the caches\<close>







lemma resolveProxy_destroyed: "pa_destroyed (snd (resolveProxy g url pa)) = pa_destroyed pa"
  by (simp add: resolveProxy_def Let_def split: sum.splits)




















lemma resolveProxy_empty_key_skips_eviction:
  assumes "proxyResolutionCache pa = ([], v) # rest"
    and "\<not> jsmap_has url (proxyResolutionCache pa)"
    and "g url = Inr (Some p)" and "p \<noteq> []"
    and "jsmap_size (proxyResolutionCache pa) = maxProxyCacheSize"
  shows "jsmap_size (proxyResolutionCache (snd (resolveProxy g url pa))) = Suc maxProxyCacheSize"
proof -
  have "jsmap_get url rest = None"
    using assms(1,2) by (simp add: jsmap_has_get split: if_splits)
  then have "jsmap_set url (or_empty (Some p)) rest = rest @ [(url, or_empty (Some p))]"
    by (simp add: jsmap_set_fresh jsmap_get_None_iff)
  then show ?thesis
    using assms
    by (simp add: resolveProxy_def truthy_def Let_def jsmap_firstKey_def jsmap_size_def
        jsmap_has_get split: if_splits)
qed



end
